theory Spec2Isabelle
  imports Complex_Main
begin

section \<open>Python values and errors\<close>

text \<open>
  The exceptions the modelled code can raise. A computation that may raise has the
  type \<open>error + 'a\<close>, with \<open>Inl\<close> for the exception.
\<close>

datatype error = ValueError | OverflowError | ZeroDivisionError | IndexError

definition bindE :: "error + 'a \<Rightarrow> ('a \<Rightarrow> error + 'b) \<Rightarrow> error + 'b" where
  "bindE m f = (case m of Inl e \<Rightarrow> Inl e | Inr v \<Rightarrow> f v)"

text \<open>
  The scalar a compiled tree returns is a Python number: a finite value (an int or a
  finite float, idealised as a real number) or one of the three special floats.
\<close>

datatype pynum = Fin real | PInf | NInf | NaN

text \<open>\<^verbatim>\<open>abs(v)\<close>\<close>

fun py_abs :: "pynum \<Rightarrow> pynum" where
  "py_abs (Fin r) = Fin \<bar>r\<bar>"
| "py_abs PInf = PInf"
| "py_abs NInf = PInf"
| "py_abs NaN = NaN"

text \<open>
  \<^verbatim>\<open>int(v)\<close>: truncation towards zero; \<^verbatim>\<open>int(float('inf'))\<close> raises OverflowError
  and \<^verbatim>\<open>int(float('nan'))\<close> raises ValueError.
\<close>

fun py_int :: "pynum \<Rightarrow> error + int" where
  "py_int (Fin r) = Inr (if 0 \<le> r then \<lfloor>r\<rfloor> else \<lceil>r\<rceil>)"
| "py_int PInf = Inl OverflowError"
| "py_int NInf = Inl OverflowError"
| "py_int NaN = Inl ValueError"

text \<open>\<^verbatim>\<open>xs[i]\<close>: a negative index counts from the end, an index out of range raises.\<close>

definition py_index :: "'a list \<Rightarrow> int \<Rightarrow> error + 'a" where
  "py_index xs i =
     (if 0 \<le> i \<and> i < int (length xs) then Inr (xs ! nat i)
      else if - int (length xs) \<le> i \<and> i < 0 then Inr (xs ! nat (int (length xs) + i))
      else Inl IndexError)"

text \<open>
  Arithmetic on finite floats is idealised as arithmetic on real numbers, up to the
  float range: the largest float is \<open>2^1024 - 2^971\<close>, and a result whose magnitude
  reaches \<open>float_limit\<close>, half a step beyond it, does not round to a finite float.
  Where Python then raises, the model raises; where Python returns an infinity,
  \<open>to_float\<close> does.
\<close>

definition float_limit :: real where
  "float_limit = 2 ^ 1024 - 2 ^ 970"

definition to_float :: "real \<Rightarrow> pynum" where
  "to_float v =
     (if float_limit \<le> v then PInf else if v \<le> - float_limit then NInf else Fin v)"

text \<open>
  A Python number as an operand: an int of any size, or a float (a finite float has
  its value within the float range).
\<close>

datatype pyval = PyInt int | PyFloat pynum

text \<open>
  The conversion of an operand to a float, as float arithmetic does with an int
  operand: an int too large for a float raises OverflowError.
\<close>

fun py_float :: "pyval \<Rightarrow> error + pynum" where
  "py_float (PyInt i) =
     (if float_limit \<le> \<bar>of_int i\<bar> then Inl OverflowError else Inr (Fin (of_int i)))"
| "py_float (PyFloat f) = Inr f"

text \<open>The quotient of two floats, for a divisor that is not zero.\<close>

fun float_quotient :: "pynum \<Rightarrow> pynum \<Rightarrow> pynum" where
  "float_quotient NaN y = NaN"
| "float_quotient x NaN = NaN"
| "float_quotient (Fin x) (Fin y) = to_float (x / y)"
| "float_quotient (Fin x) y = Fin 0"
| "float_quotient PInf (Fin y) = (if 0 < y then PInf else NInf)"
| "float_quotient NInf (Fin y) = (if 0 < y then NInf else PInf)"
| "float_quotient x y = NaN"

text \<open>
  \<^verbatim>\<open>a / b\<close>. Two ints: a zero divisor raises ZeroDivisionError, a quotient too large
  for a float raises OverflowError. Otherwise both operands are converted to floats,
  the left one first, and then a zero divisor raises ZeroDivisionError.
\<close>

fun py_truediv :: "pyval \<Rightarrow> pyval \<Rightarrow> error + pyval" where
  "py_truediv (PyInt i) (PyInt j) =
     (if j = 0 then Inl ZeroDivisionError
      else if float_limit \<le> \<bar>of_int i / of_int j\<bar> then Inl OverflowError
      else Inr (PyFloat (Fin (of_int i / of_int j))))"
| "py_truediv a b =
     bindE (py_float a) (\<lambda>x.
     bindE (py_float b) (\<lambda>y.
       if y = Fin 0 then Inl ZeroDivisionError else Inr (PyFloat (float_quotient x y))))"

text \<open>
  \<^verbatim>\<open>x % m\<close> on floats, for a divisor that is not zero (the code only uses the
  constant \<^verbatim>\<open>2 * math.pi\<close>): the result has the sign of the divisor.
\<close>

definition py_mod :: "real \<Rightarrow> real \<Rightarrow> real" where
  "py_mod x m = x - m * of_int \<lfloor>x / m\<rfloor>"

text \<open>\<^verbatim>\<open>v ** 2\<close> on a float: a square beyond the float range raises OverflowError.\<close>

definition float_square :: "real \<Rightarrow> error + real" where
  "float_square v = (if float_limit \<le> v\<^sup>2 then Inl OverflowError else Inr (v\<^sup>2))"

text \<open>
  \<^verbatim>\<open>math.sqrt(v)\<close>: a negative argument raises ValueError, the square root of
  infinity is infinity.
\<close>

fun math_sqrt :: "pynum \<Rightarrow> error + pynum" where
  "math_sqrt (Fin v) = (if v < 0 then Inl ValueError else Inr (Fin (sqrt v)))"
| "math_sqrt PInf = Inr PInf"
| "math_sqrt NInf = Inl ValueError"
| "math_sqrt NaN = Inr NaN"

text \<open>
  The expression \<^verbatim>\<open>math.sqrt(dx**2 + dy**2)\<close>: either square can raise; their sum
  can overflow to infinity, which raises nothing.
\<close>

definition sqrt_sum_squares :: "real \<Rightarrow> real \<Rightarrow> error + pynum" where
  "sqrt_sum_squares dx dy =
     bindE (float_square dx) (\<lambda>sx.
     bindE (float_square dy) (\<lambda>sy.
       math_sqrt (to_float (sx + sy))))"

text \<open>\<^verbatim>\<open>v < c\<close> for a float \<open>v\<close> and a finite \<open>c\<close>.\<close>

fun py_less :: "pynum \<Rightarrow> real \<Rightarrow> bool" where
  "py_less (Fin v) c = (v < c)"
| "py_less PInf c = False"
| "py_less NInf c = True"
| "py_less NaN c = False"

text \<open>
  \<^verbatim>\<open>math.atan2(y, x)\<close>: the angle of the point \<open>(x, y)\<close> in \<open>(-\<pi>, \<pi>]\<close>, and 0 at
  the origin.
\<close>

definition math_atan2 :: "real \<Rightarrow> real \<Rightarrow> real" where
  "math_atan2 y x =
     (if 0 < x then arctan (y / x)
      else if x < 0 \<and> 0 \<le> y then arctan (y / x) + pi
      else if x < 0 \<and> y < 0 then arctan (y / x) - pi
      else if 0 < y then pi / 2
      else if y < 0 then - (pi / 2)
      else 0)"

section \<open>gputils.py: primitives and the action mapping\<close>

text \<open>
  \<^verbatim>\<open>
  def protected_div(a, b):
      try:
          return a / b
      except ZeroDivisionError:
          return 1
  \<close>
\<close>

definition protected_div :: "pyval \<Rightarrow> pyval \<Rightarrow> error + pyval" where
  "protected_div a b =
     (case py_truediv a b of
        Inl e \<Rightarrow> (if e = ZeroDivisionError then Inr (PyInt 1) else Inl e)
      | Inr q \<Rightarrow> Inr q)"

definition actions :: "string list" where
  "actions = [''move_forward'', ''turn_left'', ''turn_right'', ''shoot'', ''reload'',
              ''do_nothing'']"

text \<open>
  \<^verbatim>\<open>
  def select_action(output):
      action_num = int(abs(output)) % 6
      actions = [...]
      return actions[action_num]
  \<close>
\<close>

definition select_action :: "pynum \<Rightarrow> error + string" where
  "select_action output =
     bindE (py_int (py_abs output)) (\<lambda>n.
       let action_num = n mod 6 in py_index actions action_num)"

section \<open>robots.py: the robot\<close>

text \<open>The \<^verbatim>\<open>sensors\<close> dictionary has five fixed keys.\<close>

record sensor_dict =
  enemy_distance :: pynum
  enemy_direction :: real
  sens_health :: int
  sens_ammo :: int
  wall_distance :: real

record robot =
  pos_x :: real
  pos_y :: real
  health :: int
  ammo :: int
  direction :: real
  last_action :: "string option"
  sensors :: sensor_dict

text \<open>
  \<^verbatim>\<open>Robot.__init__(x, y, health=100, ammo=50)\<close>. The facing is drawn by
  \<^verbatim>\<open>random.uniform(0, 2 * math.pi)\<close>; the drawn value is the argument \<open>facing\<close>.
\<close>

definition Robot_init :: "real \<Rightarrow> real \<Rightarrow> int \<Rightarrow> int \<Rightarrow> real \<Rightarrow> robot" where
  "Robot_init x y h a facing =
     \<lparr>pos_x = x, pos_y = y, health = h, ammo = a, direction = facing,
      last_action = None,
      sensors = \<lparr>enemy_distance = Fin 0, enemy_direction = 0, sens_health = 100,
                 sens_ammo = 50, wall_distance = 0\<rparr>\<rparr>"

text \<open>The call \<^verbatim>\<open>Robot(x, y)\<close> with the default health and ammo.\<close>

definition Robot :: "real \<Rightarrow> real \<Rightarrow> real \<Rightarrow> robot" where
  "Robot x y facing = Robot_init x y 100 50 facing"

text \<open>
  The coordinates of the robots of a match are floats inside the arena, so their
  differences are finite floats; the distance is the one computation here whose
  intermediate results can leave the float range.
\<close>

definition update_sensors :: "robot \<Rightarrow> robot \<Rightarrow> real \<Rightarrow> error + robot" where
  "update_sensors self opponent arena_size =
     (let dx = pos_x opponent - pos_x self;
          dy = pos_y opponent - pos_y self
      in bindE (sqrt_sum_squares dx dy) (\<lambda>dist.
           let enemy_dir = math_atan2 dy dx
           in Inr (self\<lparr>sensors :=
                \<lparr>enemy_distance = dist,
                 enemy_direction = py_mod (enemy_dir - direction self) (2 * pi),
                 sens_health = health self,
                 sens_ammo = ammo self,
                 wall_distance = min (pos_x self) (min (arena_size - pos_x self)
                                   (min (pos_y self) (arena_size - pos_y self)))\<rparr>\<rparr>)))"

text \<open>
  \<open>execute_action\<close> mutates the acting robot and, on a hit, the opponent: the model
  returns both. The two robots of a match are distinct objects.
\<close>

definition execute_action :: "string \<Rightarrow> robot \<Rightarrow> robot \<Rightarrow> real \<Rightarrow> error + robot \<times> robot" where
  "execute_action action self0 opponent arena_size =
     (let self = self0\<lparr>last_action := Some action\<rparr> in
      if action = ''move_forward'' then
        (let move_dist = 5;
             new_x = pos_x self + move_dist * cos (direction self);
             new_y = pos_y self + move_dist * sin (direction self)
         in if 0 \<le> new_x \<and> new_x \<le> arena_size \<and> 0 \<le> new_y \<and> new_y \<le> arena_size
            then Inr (self\<lparr>pos_x := new_x, pos_y := new_y\<rparr>, opponent)
            else Inr (self, opponent))
      else if action = ''turn_left'' then
        Inr (self\<lparr>direction := py_mod (direction self - pi / 8) (2 * pi)\<rparr>, opponent)
      else if action = ''turn_right'' then
        Inr (self\<lparr>direction := py_mod (direction self + pi / 8) (2 * pi)\<rparr>, opponent)
      else if action = ''shoot'' \<and> ammo self > 0 then
        (let self1 = self\<lparr>ammo := ammo self - 1\<rparr>;
             dx = pos_x opponent - pos_x self1;
             dy = pos_y opponent - pos_y self1;
             angle_to_opponent = math_atan2 dy dx;
             angle_diff = \<bar>py_mod (angle_to_opponent - direction self1) (2 * pi)\<bar>
         in if angle_diff < pi / 8
            then bindE (sqrt_sum_squares dx dy) (\<lambda>dist.
                   if py_less dist 50
                   then Inr (self1, opponent\<lparr>health := health opponent - 20\<rparr>)
                   else Inr (self1, opponent))
            else Inr (self1, opponent))
      else if action = ''reload'' then
        Inr (self\<lparr>ammo := min 50 (ammo self + 10)\<rparr>, opponent)
      else if action = ''do_nothing'' then
        Inr (self, opponent)
      else Inr (self, opponent))"

section \<open>The random module\<close>

text \<open>
  The state of Python's global generator is the sequence of values that
  \<^verbatim>\<open>random.random()\<close> will return from now on. \<^verbatim>\<open>random.uniform(a, b)\<close> is
  \<^verbatim>\<open>a + (b - a) * random()\<close>.
\<close>

type_synonym rng = "nat \<Rightarrow> real"

definition random_random :: "rng \<Rightarrow> real \<times> rng" where
  "random_random g = (g 0, \<lambda>n. g (Suc n))"

definition random_uniform :: "real \<Rightarrow> real \<Rightarrow> rng \<Rightarrow> real \<times> rng" where
  "random_uniform a b g = (let (u, g') = random_random g in (a + (b - a) * u, g'))"

section \<open>gputils.py: one match\<close>

text \<open>
  A compiled tree is a function of the five sensor values, in the order of the
  renamed arguments; it returns a number or raises.
\<close>

type_synonym program = "pynum \<Rightarrow> real \<Rightarrow> int \<Rightarrow> int \<Rightarrow> real \<Rightarrow> error + pynum"

text \<open>
  \<^verbatim>\<open>Robot(random.uniform(50, arena_size-50), random.uniform(50, arena_size-50))\<close>:
  the two arguments are drawn first, the facing inside the constructor.
\<close>

definition new_robot :: "real \<Rightarrow> rng \<Rightarrow> robot \<times> rng" where
  "new_robot arena_size g =
     (let (x, g1) = random_uniform 50 (arena_size - 50) g;
          (y, g2) = random_uniform 50 (arena_size - 50) g1;
          (facing, g3) = random_uniform 0 (2 * pi) g2
      in (Robot x y facing, g3))"

definition run_program :: "program \<Rightarrow> robot \<Rightarrow> error + pynum" where
  "run_program func r =
     func (enemy_distance (sensors r)) (enemy_direction (sensors r))
          (sens_health (sensors r)) (sens_ammo (sensors r)) (wall_distance (sensors r))"

text \<open>One iteration of the battle loop, steps 1 to 4.\<close>

definition tick :: "program \<Rightarrow> program \<Rightarrow> real \<Rightarrow> robot \<Rightarrow> robot \<Rightarrow> error + robot \<times> robot" where
  "tick func1 func2 arena_size robot1 robot2 =
     bindE (update_sensors robot1 robot2 arena_size) (\<lambda>robot1.
     bindE (update_sensors robot2 robot1 arena_size) (\<lambda>robot2.
     bindE (run_program func1 robot1) (\<lambda>output1.
     bindE (run_program func2 robot2) (\<lambda>output2.
     bindE (select_action output1) (\<lambda>action1.
     bindE (select_action output2) (\<lambda>action2.
     bindE (execute_action action1 robot1 robot2 arena_size) (\<lambda>(robot1, robot2).
     bindE (execute_action action2 robot2 robot1 arena_size) (\<lambda>(robot2, robot1).
     Inr (robot1, robot2)))))))))"

text \<open>
  \<^verbatim>\<open>for _ in range(max_steps): ...; if robot1.health <= 0 or robot2.health <= 0: break\<close>.
  The third component of the result is the number of iterations that were run
  (the loop variable plus one); the code does not use it.
\<close>

fun battle :: "nat \<Rightarrow> program \<Rightarrow> program \<Rightarrow> real \<Rightarrow> robot \<Rightarrow> robot
                 \<Rightarrow> error + robot \<times> robot \<times> nat" where
  "battle 0 func1 func2 arena_size robot1 robot2 = Inr (robot1, robot2, 0)"
| "battle (Suc n) func1 func2 arena_size robot1 robot2 =
     bindE (tick func1 func2 arena_size robot1 robot2) (\<lambda>(robot1, robot2).
       if health robot1 \<le> 0 \<or> health robot2 \<le> 0 then Inr (robot1, robot2, 1)
       else bindE (battle n func1 func2 arena_size robot1 robot2) (\<lambda>(robot1, robot2, k).
              Inr (robot1, robot2, Suc k)))"

text \<open>
  An individual is a tree with a fitness: \<open>None\<close> while \<^verbatim>\<open>fitness.valid\<close> is false,
  \<open>Some s\<close> for \<^verbatim>\<open>fitness.values == (s,)\<close>.
\<close>

record 't individual =
  tree :: 't
  fitness :: "int option"

text \<open>
  \<^verbatim>\<open>ind.fitness.values = (ind.fitness.values[0] + 1,)\<close>: reading the first value of
  an empty tuple raises IndexError.
\<close>

definition award :: "'t individual \<Rightarrow> error + 't individual" where
  "award ind =
     (case fitness ind of
        None \<Rightarrow> Inl IndexError
      | Some s \<Rightarrow> Inr (ind\<lparr>fitness := Some (s + 1)\<rparr>))"

text \<open>
  The body of the competition loop for one pair. Besides the two individuals and the
  generator it returns the final robots and the number of iterations, for the record
  of the round.
\<close>

definition play_match :: "('t \<Rightarrow> program) \<Rightarrow> real \<Rightarrow> int \<Rightarrow> 't individual \<Rightarrow> 't individual \<Rightarrow> rng
     \<Rightarrow> error + 't individual \<times> 't individual \<times> (robot \<times> robot \<times> nat) \<times> rng" where
  "play_match compile arena_size max_steps ind1 ind2 g =
     (let (robot1, g1) = new_robot arena_size g;
          (robot2, g2) = new_robot arena_size g1;
          func1 = compile (tree ind1);
          func2 = compile (tree ind2)
      in bindE (battle (nat max_steps) func1 func2 arena_size robot1 robot2)
           (\<lambda>(robot1, robot2, k).
              if health robot1 > 0 \<and> health robot2 \<le> 0 then
                bindE (award ind1) (\<lambda>ind1. Inr (ind1, ind2, (robot1, robot2, k), g2))
              else if health robot2 > 0 \<and> health robot1 \<le> 0 then
                bindE (award ind2) (\<lambda>ind2. Inr (ind1, ind2, (robot1, robot2, k), g2))
              else Inr (ind1, ind2, (robot1, robot2, k), g2)))"

section \<open>gputils.py: the round robin\<close>

text \<open>\<^verbatim>\<open>if not ind.fitness.valid: ind.fitness.values = (0,)\<close>, for every individual.\<close>

definition init_fitness :: "'t individual list \<Rightarrow> 't individual list" where
  "init_fitness pop =
     map (\<lambda>ind. if fitness ind = None then ind\<lparr>fitness := Some 0\<rparr> else ind) pop"

text \<open>\<^verbatim>\<open>for ind2 in pop2\<close>, for a fixed \<open>ind1\<close>.\<close>

fun versus_all :: "('t \<Rightarrow> program) \<Rightarrow> real \<Rightarrow> int \<Rightarrow> 't individual \<Rightarrow> 't individual list \<Rightarrow> rng
     \<Rightarrow> error + 't individual \<times> 't individual list \<times> (robot \<times> robot \<times> nat) list \<times> rng" where
  "versus_all compile arena_size max_steps ind1 [] g = Inr (ind1, [], [], g)"
| "versus_all compile arena_size max_steps ind1 (ind2 # pop2) g =
     bindE (play_match compile arena_size max_steps ind1 ind2 g) (\<lambda>(ind1, ind2, res, g).
     bindE (versus_all compile arena_size max_steps ind1 pop2 g) (\<lambda>(ind1, pop2, row, g).
     Inr (ind1, ind2 # pop2, res # row, g)))"

text \<open>\<^verbatim>\<open>for ind1 in pop1\<close>.\<close>

fun competition :: "('t \<Rightarrow> program) \<Rightarrow> real \<Rightarrow> int \<Rightarrow> 't individual list \<Rightarrow> 't individual list \<Rightarrow> rng
     \<Rightarrow> error + 't individual list \<times> 't individual list \<times> (robot \<times> robot \<times> nat) list list \<times> rng" where
  "competition compile arena_size max_steps [] pop2 g = Inr ([], pop2, [], g)"
| "competition compile arena_size max_steps (ind1 # pop1) pop2 g =
     bindE (versus_all compile arena_size max_steps ind1 pop2 g) (\<lambda>(ind1, pop2, row, g).
     bindE (competition compile arena_size max_steps pop1 pop2 g) (\<lambda>(pop1, pop2, rows, g).
     Inr (ind1 # pop1, pop2, row # rows, g)))"

text \<open>
  The individuals of the two lists are distinct objects (fresh individuals, or the
  clones made by \<open>coevolution\<close>), so the lists are updated position by position.
  The third component of the result records the matches: row \<open>i\<close>, column \<open>j\<close> holds
  the final robots of the match of \<open>pop1[i]\<close> against \<open>pop2[j]\<close>.
\<close>

definition evaluate_individuals :: "'t individual list \<Rightarrow> 't individual list \<Rightarrow> ('t \<Rightarrow> program)
     \<Rightarrow> real \<Rightarrow> int \<Rightarrow> rng
     \<Rightarrow> error + 't individual list \<times> 't individual list \<times> (robot \<times> robot \<times> nat) list list \<times> rng" where
  "evaluate_individuals pop1 pop2 compile arena_size max_steps g =
     competition compile arena_size max_steps (init_fitness pop1) (init_fitness pop2) g"

text \<open>Reading the record of a round: who won a match, and how often.\<close>

definition first_won :: "robot \<times> robot \<times> nat \<Rightarrow> bool" where
  "first_won res = (case res of (robot1, robot2, k) \<Rightarrow> health robot1 > 0 \<and> health robot2 \<le> 0)"

definition second_won :: "robot \<times> robot \<times> nat \<Rightarrow> bool" where
  "second_won res = (case res of (robot1, robot2, k) \<Rightarrow> health robot2 > 0 \<and> health robot1 \<le> 0)"

definition wins1 :: "(robot \<times> robot \<times> nat) list list \<Rightarrow> nat \<Rightarrow> int" where
  "wins1 rows i = int (length (filter first_won (rows ! i)))"

definition wins2 :: "(robot \<times> robot \<times> nat) list list \<Rightarrow> nat \<Rightarrow> int" where
  "wins2 rows j = int (length (filter second_won (map (\<lambda>row. row ! j) rows)))"

text \<open>The score an individual brings into a round: 0 unless its fitness is valid.\<close>

definition carried :: "'t individual \<Rightarrow> int" where
  "carried ind = (case fitness ind of None \<Rightarrow> 0 | Some s \<Rightarrow> s)"

text \<open>An individual with \<open>n\<close> added to the score it brought.\<close>

definition credit :: "int \<Rightarrow> 't individual \<Rightarrow> 't individual" where
  "credit n ind = ind\<lparr>fitness := Some (carried ind + n)\<rparr>"

section \<open>gputils.py: the toolbox and the generational loop\<close>

text \<open>
  \<open>setup_evolution\<close> registers functions of the DEAP library in a toolbox. They are
  parameters here: \<open>expr\<close> is the tree generator (\<^verbatim>\<open>gp.genHalfAndHalf\<close>),
  \<open>compile\<close> is \<^verbatim>\<open>gp.compile\<close>, \<open>mate\<close> is \<^verbatim>\<open>gp.cxOnePoint\<close>, \<open>mutate\<close> is
  \<^verbatim>\<open>gp.mutUniform\<close> and \<open>select\<close> is \<^verbatim>\<open>tools.selTournament\<close> with
  \<^verbatim>\<open>tournsize=3\<close>. Those that draw random numbers take the generator and return it.
\<close>

record 't toolbox =
  expr :: "rng \<Rightarrow> 't \<times> rng"
  compile :: "'t \<Rightarrow> program"
  mate :: "'t \<Rightarrow> 't \<Rightarrow> rng \<Rightarrow> ('t \<times> 't) \<times> rng"
  mutate :: "'t \<Rightarrow> rng \<Rightarrow> 't \<times> rng"
  select :: "'t individual list \<Rightarrow> nat \<Rightarrow> rng \<Rightarrow> 't individual list \<times> rng"

text \<open>
  \<^verbatim>\<open>toolbox.individual\<close> is \<^verbatim>\<open>tools.initIterate(creator.Individual, toolbox.expr)\<close>:
  a new individual around a generated tree, its fitness not yet valid.
\<close>

definition individual :: "('t, 'z) toolbox_scheme \<Rightarrow> rng \<Rightarrow> 't individual \<times> rng" where
  "individual tb g = (let (t, g') = expr tb g in (\<lparr>tree = t, fitness = None\<rparr>, g'))"

text \<open>
  \<^verbatim>\<open>toolbox.population(n=...)\<close> is \<^verbatim>\<open>tools.initRepeat(list, toolbox.individual, n)\<close>,
  that is \<^verbatim>\<open>list(toolbox.individual() for _ in range(n))\<close>.
\<close>

fun initRepeat :: "(rng \<Rightarrow> 'a \<times> rng) \<Rightarrow> nat \<Rightarrow> rng \<Rightarrow> 'a list \<times> rng" where
  "initRepeat func 0 g = ([], g)"
| "initRepeat func (Suc n) g =
     (let (v, g1) = func g; (vs, g2) = initRepeat func n g1 in (v # vs, g2))"

definition population :: "('t, 'z) toolbox_scheme \<Rightarrow> int \<Rightarrow> rng \<Rightarrow> 't individual list \<times> rng" where
  "population tb n g = initRepeat (individual tb) (nat n) g"

text \<open>
  \<^verbatim>\<open>
  for child1, child2 in zip(offspring[::2], offspring[1::2]):
      if random.random() < 0.5:
          toolbox.mate(child1, child2)
          del child1.fitness.values
          del child2.fitness.values
  \<close>
  The pairs are the positions (0,1), (2,3), ...; a last individual without a partner is
  left alone. \<open>mate\<close> changes both trees in place.
\<close>

fun crossover_pass :: "('t, 'z) toolbox_scheme \<Rightarrow> 't individual list \<Rightarrow> rng
     \<Rightarrow> 't individual list \<times> rng" where
  "crossover_pass tb (child1 # child2 # rest) g =
     (let (u, g1) = random_random g in
      if u < 0.5 then
        (let ((t1, t2), g2) = mate tb (tree child1) (tree child2) g1;
             (rest', g3) = crossover_pass tb rest g2
         in (child1\<lparr>tree := t1, fitness := None\<rparr> # child2\<lparr>tree := t2, fitness := None\<rparr> # rest',
             g3))
      else
        (let (rest', g3) = crossover_pass tb rest g1
         in (child1 # child2 # rest', g3)))"
| "crossover_pass tb offspring g = (offspring, g)"

text \<open>
  \<^verbatim>\<open>
  for mutant in offspring:
      if random.random() < 0.1:
          toolbox.mutate(mutant)
          del mutant.fitness.values
  \<close>
\<close>

fun mutation_pass :: "('t, 'z) toolbox_scheme \<Rightarrow> 't individual list \<Rightarrow> rng
     \<Rightarrow> 't individual list \<times> rng" where
  "mutation_pass tb [] g = ([], g)"
| "mutation_pass tb (mutant # rest) g =
     (let (u, g1) = random_random g in
      if u < 0.1 then
        (let (t, g2) = mutate tb (tree mutant) g1;
             (rest', g3) = mutation_pass tb rest g2
         in (mutant\<lparr>tree := t, fitness := None\<rparr> # rest', g3))
      else
        (let (rest', g3) = mutation_pass tb rest g1 in (mutant # rest', g3)))"

text \<open>\<^verbatim>\<open>[ind.fitness.values[0] for ind in pop]\<close>\<close>

fun fitness_values :: "'t individual list \<Rightarrow> error + int list" where
  "fitness_values [] = Inr []"
| "fitness_values (ind # pop) =
     (case fitness ind of
        None \<Rightarrow> Inl IndexError
      | Some s \<Rightarrow> bindE (fitness_values pop) (\<lambda>fits. Inr (s # fits)))"

text \<open>\<^verbatim>\<open>max(fits)\<close>: the maximum of an empty list raises ValueError.\<close>

definition py_max :: "int list \<Rightarrow> error + int" where
  "py_max fits = (case fits of [] \<Rightarrow> Inl ValueError | v # vs \<Rightarrow> Inr (fold max vs v))"

text \<open>
  \<^verbatim>\<open>sum(fits) / len(fits)\<close>. The scores are floats that hold whole numbers and the
  length of a list fits a float, so the division raises only for the empty list.
\<close>

definition average :: "int list \<Rightarrow> error + real" where
  "average fits =
     (if length fits = 0 then Inl ZeroDivisionError
      else Inr (of_int (sum_list fits) / of_nat (length fits)))"

text \<open>
  The body of the evolutionary loop: both selections, the clones (a copy, which a
  value already is), both crossover loops, both mutation loops, the round robin of
  the offspring and the statistics. The statistics of the generation are returned
  as the four values that the code appends to its four lists; the record of the round
  is returned as well.
\<close>

definition generation :: "('t, 'z) toolbox_scheme \<Rightarrow> 't individual list \<Rightarrow> 't individual list \<Rightarrow> rng
     \<Rightarrow> error + 't individual list \<times> 't individual list \<times> (real \<times> int \<times> real \<times> int)
                \<times> (robot \<times> robot \<times> nat) list list \<times> rng" where
  "generation tb pop1 pop2 g =
     (let (offspring1, g1) = select tb pop1 (length pop1) g;
          (offspring2, g2) = select tb pop2 (length pop2) g1;
          (offspring1, g3) = crossover_pass tb offspring1 g2;
          (offspring2, g4) = crossover_pass tb offspring2 g3;
          (offspring1, g5) = mutation_pass tb offspring1 g4;
          (offspring2, g6) = mutation_pass tb offspring2 g5
      in bindE (evaluate_individuals offspring1 offspring2 (compile tb) 200 100 g6)
           (\<lambda>(pop1, pop2, rows, g7).
         bindE (fitness_values pop1) (\<lambda>fits1.
         bindE (fitness_values pop2) (\<lambda>fits2.
         bindE (average fits1) (\<lambda>avg1.
         bindE (py_max fits1) (\<lambda>max1.
         bindE (average fits2) (\<lambda>avg2.
         bindE (py_max fits2) (\<lambda>max2.
         Inr (pop1, pop2, (avg1, max1, avg2, max2), rows, g7)))))))))"

text \<open>\<^verbatim>\<open>for gen in tqdm(range(generations), unit=' generation')\<close>\<close>

fun evolve :: "nat \<Rightarrow> ('t, 'z) toolbox_scheme \<Rightarrow> 't individual list \<Rightarrow> 't individual list
     \<Rightarrow> real list \<Rightarrow> int list \<Rightarrow> real list \<Rightarrow> int list \<Rightarrow> rng
     \<Rightarrow> error + 't individual list \<times> 't individual list
                \<times> real list \<times> int list \<times> real list \<times> int list" where
  "evolve 0 tb pop1 pop2 avg_fits1 max_fits1 avg_fits2 max_fits2 g =
     Inr (pop1, pop2, avg_fits1, max_fits1, avg_fits2, max_fits2)"
| "evolve (Suc n) tb pop1 pop2 avg_fits1 max_fits1 avg_fits2 max_fits2 g =
     bindE (generation tb pop1 pop2 g) (\<lambda>(pop1, pop2, (avg1, max1, avg2, max2), rows, g).
       evolve n tb pop1 pop2 (avg_fits1 @ [avg1]) (max_fits1 @ [max1])
              (avg_fits2 @ [avg2]) (max_fits2 @ [max2]) g)"

text \<open>
  \<open>coevolution\<close>, given the toolbox that \<open>setup_evolution\<close> built from the primitive
  set. Neither \<open>setup_evolution\<close> nor \<open>coevolution\<close> inspects \<open>pop_size\<close> or
  \<open>generations\<close> before using them.
\<close>

definition coevolution :: "('t, 'z) toolbox_scheme \<Rightarrow> int \<Rightarrow> int \<Rightarrow> rng
     \<Rightarrow> error + 't individual list \<times> 't individual list
                \<times> real list \<times> int list \<times> real list \<times> int list" where
  "coevolution tb pop_size generations g =
     (let (pop1, g1) = population tb pop_size g;
          (pop2, g2) = population tb pop_size g1
      in bindE (evaluate_individuals pop1 pop2 (compile tb) 200 100 g2)
           (\<lambda>(pop1, pop2, rows, g3).
              evolve (nat generations) tb pop1 pop2 [] [] [] [] g3))"

section \<open>Expression trees and subtree crossover\<close>

text \<open>
  Modelled from the spec: the tree representation and the subtree-swap crossover are
  \<^verbatim>\<open>gp.PrimitiveTree\<close> and \<^verbatim>\<open>gp.cxOnePoint\<close> of the DEAP library, which the
  repository only registers in its toolbox. The spec's data model: a node is a
  terminal (a sensor name or a constant) or a function with its ordered children;
  the size of a tree is its number of nodes. Crossover picks one node in each parent
  and swaps the two subtrees rooted there. A node is addressed by its position in
  the preorder traversal, from 0 for the root.
\<close>

datatype terminal = Sensor string | Constant real

datatype node = Terminal terminal | Function string "node list"

text \<open>Modelled from the spec: the size of a tree is its number of nodes.\<close>

fun tree_size :: "node \<Rightarrow> nat" where
  "tree_size (Terminal t) = 1"
| "tree_size (Function f cs) = Suc (sum_list (map tree_size cs))"

text \<open>
  Modelled from the spec: the subtree rooted at the node in position \<open>i\<close> of the preorder
  traversal, if there is such a node.
\<close>

fun subtree_at :: "node \<Rightarrow> nat \<Rightarrow> node option"
  and subtree_at_list :: "node list \<Rightarrow> nat \<Rightarrow> node option" where
  "subtree_at t 0 = Some t"
| "subtree_at (Terminal v) (Suc i) = None"
| "subtree_at (Function f cs) (Suc i) = subtree_at_list cs i"
| "subtree_at_list [] i = None"
| "subtree_at_list (c # cs) i =
     (if i < tree_size c then subtree_at c i else subtree_at_list cs (i - tree_size c))"

text \<open>
  Modelled from the spec: the tree with the subtree at position \<open>i\<close> replaced by \<open>s\<close>.
\<close>

fun replace_at :: "node \<Rightarrow> nat \<Rightarrow> node \<Rightarrow> node"
  and replace_at_list :: "node list \<Rightarrow> nat \<Rightarrow> node \<Rightarrow> node list" where
  "replace_at t 0 s = s"
| "replace_at (Terminal v) (Suc i) s = Terminal v"
| "replace_at (Function f cs) (Suc i) s = Function f (replace_at_list cs i s)"
| "replace_at_list [] i s = []"
| "replace_at_list (c # cs) i s =
     (if i < tree_size c then replace_at c i s # cs
      else c # replace_at_list cs (i - tree_size c) s)"

text \<open>
  Modelled from the spec: subtree crossover swaps the subtree at position \<open>i\<close> of the
  first parent with the subtree at position \<open>j\<close> of the second. The result is the two
  offspring, or \<open>None\<close> when a position does not address a node.
\<close>

definition crossover :: "node \<Rightarrow> node \<Rightarrow> nat \<Rightarrow> nat \<Rightarrow> (node \<times> node) option" where
  "crossover parent1 parent2 i j =
     (case subtree_at parent1 i of
        None \<Rightarrow> None
      | Some s1 \<Rightarrow>
          (case subtree_at parent2 j of
             None \<Rightarrow> None
           | Some s2 \<Rightarrow> Some (replace_at parent1 i s2, replace_at parent2 j s1)))"

section \<open>Conditions on the robots and programs of a match\<close>

text \<open>
  The opponent is so far away on an axis that the square of the coordinate difference
  is beyond the float range.
\<close>

definition too_far :: "robot \<Rightarrow> robot \<Rightarrow> bool" where
  "too_far r opp =
     (float_limit \<le> (pos_x opp - pos_x r)\<^sup>2 \<or> float_limit \<le> (pos_y opp - pos_y r)\<^sup>2)"

text \<open>The robot is inside the arena of side \<open>s\<close>.\<close>

definition in_arena :: "real \<Rightarrow> robot \<Rightarrow> bool" where
  "in_arena s r = (0 \<le> pos_x r \<and> pos_x r \<le> s \<and> 0 \<le> pos_y r \<and> pos_y r \<le> s)"

text \<open>A program returned a finite number.\<close>

fun is_finite :: "error + pynum \<Rightarrow> bool" where
  "is_finite (Inr (Fin v)) = True"
| "is_finite res = False"

text \<open>
  Both programs return finite numbers on the sensor values of this iteration (if the
  sensor update raises, the programs are not run).
\<close>

definition finite_outputs :: "program \<Rightarrow> program \<Rightarrow> real \<Rightarrow> robot \<Rightarrow> robot \<Rightarrow> bool" where
  "finite_outputs func1 func2 s r1 r2 =
     (case update_sensors r1 r2 s of
        Inl e \<Rightarrow> True
      | Inr u1 \<Rightarrow>
          (case update_sensors r2 u1 s of
             Inl e \<Rightarrow> True
           | Inr u2 \<Rightarrow> is_finite (run_program func1 u1) \<and> is_finite (run_program func2 u2)))"

text \<open>
  Both programs return finite numbers in every iteration that a battle of at most \<open>n\<close>
  iterations runs.
\<close>

fun finite_run :: "nat \<Rightarrow> program \<Rightarrow> program \<Rightarrow> real \<Rightarrow> robot \<Rightarrow> robot \<Rightarrow> bool" where
  "finite_run 0 func1 func2 s r1 r2 = True"
| "finite_run (Suc n) func1 func2 s r1 r2 =
     (finite_outputs func1 func2 s r1 r2 \<and>
      (case tick func1 func2 s r1 r2 of
         Inl e \<Rightarrow> True
       | Inr (a, b) \<Rightarrow> health a \<le> 0 \<or> health b \<le> 0 \<or> finite_run n func1 func2 s a b))"

section \<open>Concrete inputs\<close>

text \<open>
  Two compiled trees for concrete runs: the tree that is the constant 3 (its action is
  always \<open>shoot\<close>) and the tree that is the constant 5 (always \<open>do_nothing\<close>).
\<close>

definition shooter :: program where
  "shooter = (\<lambda>d a h m w. Inr (Fin 3))"

definition idler :: program where
  "idler = (\<lambda>d a h m w. Inr (Fin 5))"

text \<open>The final robots of a battle between the two, both placed at (50, 50) facing 0.\<close>

definition shooter_after :: robot where
  "shooter_after =
     \<lparr>pos_x = 50, pos_y = 50, health = 100, ammo = 45, direction = 0,
      last_action = Some ''shoot'',
      sensors = \<lparr>enemy_distance = Fin 0, enemy_direction = 0, sens_health = 100, sens_ammo = 46,
                 wall_distance = 50\<rparr>\<rparr>"

definition idler_after :: robot where
  "idler_after =
     \<lparr>pos_x = 50, pos_y = 50, health = 0, ammo = 50, direction = 0,
      last_action = Some ''do_nothing'',
      sensors = \<lparr>enemy_distance = Fin 0, enemy_direction = 0, sens_health = 20, sens_ammo = 50,
                 wall_distance = 50\<rparr>\<rparr>"

text \<open>The compiled form of a tree that is the single constant \<open>c\<close>.\<close>

definition compile_constant :: "real \<Rightarrow> program" where
  "compile_constant c = (\<lambda>d a h m w. Inr (Fin c))"

text \<open>A compiled tree whose arithmetic has overflowed to infinity.\<close>

definition overflowing :: program where
  "overflowing = (\<lambda>d a h m w. Inr PInf)"

text \<open>A generator that returns the values of a list, in order, and 0 from then on.\<close>

definition draws_from :: "real list \<Rightarrow> rng" where
  "draws_from xs = (\<lambda>n. if n < length xs then xs ! n else 0)"

text \<open>
  A toolbox for trees that compute a constant, each represented by its constant: the
  generators produce the constant 3 or the constant 5, and selection from a population
  of one individual returns that individual, as every tournament does.
\<close>

definition constant_toolbox :: "real toolbox" where
  "constant_toolbox =
     \<lparr>expr = (\<lambda>g. let (u, g') = random_random g in (if u < 1 / 2 then 3 else 5, g')),
      compile = compile_constant,
      mate = (\<lambda>t1 t2 g. ((t2, t1), g)),
      mutate = (\<lambda>t g. let (u, g') = random_random g in (if u < 1 / 2 then 3 else 5, g')),
      select = (\<lambda>pop k g. (replicate k (hd pop), g))\<rparr>"

text \<open>Two trees: \<open>add(health, neg(3))\<close> and \<open>mul(ammo, 5)\<close>.\<close>

definition sample1 :: node where
  "sample1 = Function ''add'' [Terminal (Sensor ''health''), Function ''neg'' [Terminal (Constant 3)]]"

definition sample2 :: node where
  "sample2 = Function ''mul'' [Terminal (Sensor ''ammo''), Terminal (Constant 5)]"

section \<open>Basic facts\<close>

lemma bindE_Inl: "bindE (Inl e) f = Inl e"
  by (simp add: bindE_def)

lemma bindE_Inr: "bindE (Inr v) f = f v"
  by (simp add: bindE_def)

lemma float_limit_ge: "2 ^ 1023 \<le> float_limit"
proof -
  have "(2::real) ^ 970 \<le> 2 ^ 1023" by (rule power_increasing) simp_all
  moreover have "(2::real) ^ 1024 = 2 * 2 ^ 1023" by simp
  ultimately show ?thesis by (simp add: float_limit_def)
qed

lemma float_limit_le: "float_limit \<le> 2 ^ 1024"
  by (simp add: float_limit_def)

lemma small_below_limit: "v \<le> 1000000 \<Longrightarrow> \<not> float_limit \<le> v"
proof -
  assume v: "v \<le> 1000000"
  have "(1000000::real) < 2 ^ 20" by simp
  also have "(2::real) ^ 20 \<le> 2 ^ 1023" by (rule power_increasing) simp_all
  finally show ?thesis using v float_limit_ge by linarith
qed

lemma float_limit_pos: "0 < float_limit"
  using small_below_limit [of 0] by simp

lemma sqrt_sum_squares_eq:
  "sqrt_sum_squares dx dy =
     (if float_limit \<le> dx\<^sup>2 \<or> float_limit \<le> dy\<^sup>2 then Inl OverflowError
      else Inr (if float_limit \<le> dx\<^sup>2 + dy\<^sup>2 then PInf else Fin (sqrt (dx\<^sup>2 + dy\<^sup>2))))"
proof -
  have "\<not> dx\<^sup>2 + dy\<^sup>2 \<le> - float_limit" "\<not> dx\<^sup>2 + dy\<^sup>2 < 0"
    using float_limit_pos sum_power2_ge_zero [of dx dy] by linarith+
  then show ?thesis
    by (simp add: sqrt_sum_squares_def float_square_def to_float_def bindE_def)
qed

lemma beyond_limit_not_near: "float_limit \<le> q \<Longrightarrow> \<not> sqrt q < 50"
proof -
  assume q: "float_limit \<le> q"
  have "(50::real)\<^sup>2 \<le> q" using q small_below_limit [of 2500] by simp
  then have "50 \<le> sqrt q" by (rule real_le_rsqrt)
  then show ?thesis by simp
qed

lemma py_less_distance:
  "py_less (if float_limit \<le> q then PInf else Fin (sqrt q)) 50 \<longleftrightarrow> sqrt q < 50"
  using beyond_limit_not_near [of q] by simp

lemma py_mod_range: "0 < m \<Longrightarrow> 0 \<le> py_mod x m \<and> py_mod x m < m"
proof -
  assume m: "0 < m"
  have 1: "of_int \<lfloor>x / m\<rfloor> \<le> x / m" by simp
  have 2: "x / m < of_int \<lfloor>x / m\<rfloor> + 1" by linarith
  have e: "m * (x / m) = x" using m by simp
  from 1 m have "m * of_int \<lfloor>x / m\<rfloor> \<le> m * (x / m)"
    by (intro mult_left_mono) simp_all
  with e have a: "m * of_int \<lfloor>x / m\<rfloor> \<le> x" by simp
  from 2 m have "m * (x / m) < m * (of_int \<lfloor>x / m\<rfloor> + 1)"
    by (intro mult_strict_left_mono) simp_all
  with e have b: "x < m * (of_int \<lfloor>x / m\<rfloor> + 1)" by simp
  from a b show ?thesis by (simp add: py_mod_def algebra_simps)
qed

lemma py_mod_2pi_abs: "\<bar>py_mod x (2 * pi)\<bar> = py_mod x (2 * pi)"
  using py_mod_range [of "2 * pi" x] by simp

lemma bindE_eq_Inr: "bindE m f = Inr y \<longleftrightarrow> (\<exists>v. m = Inr v \<and> f v = Inr y)"
  by (cases m) (simp_all add: bindE_def)

lemma select_action_Fin: "select_action (Fin r) = Inr (actions ! nat (\<lfloor>\<bar>r\<bar>\<rfloor> mod 6))"
proof -
  have "0 \<le> \<lfloor>\<bar>r\<bar>\<rfloor> mod 6 \<and> \<lfloor>\<bar>r\<bar>\<rfloor> mod 6 < 6" by simp
  then show ?thesis
    by (simp add: select_action_def bindE_def py_index_def actions_def Let_def)
qed

lemma select_action_3: "select_action (Fin 3) = Inr ''shoot''"
  by (simp add: select_action_def bindE_def py_index_def actions_def Let_def)

lemma select_action_5: "select_action (Fin 5) = Inr ''do_nothing''"
  by (simp add: select_action_def bindE_def py_index_def actions_def Let_def)

lemma update_sensors_eq:
  "update_sensors r opp s =
     (if too_far r opp then Inl OverflowError
      else Inr (r\<lparr>sensors :=
        \<lparr>enemy_distance =
           (if float_limit \<le> (pos_x opp - pos_x r)\<^sup>2 + (pos_y opp - pos_y r)\<^sup>2 then PInf
            else Fin (sqrt ((pos_x opp - pos_x r)\<^sup>2 + (pos_y opp - pos_y r)\<^sup>2))),
         enemy_direction =
           py_mod (math_atan2 (pos_y opp - pos_y r) (pos_x opp - pos_x r) - direction r) (2 * pi),
         sens_health = health r,
         sens_ammo = ammo r,
         wall_distance = min (pos_x r) (min (s - pos_x r) (min (pos_y r) (s - pos_y r)))\<rparr>\<rparr>))"
  by (simp add: update_sensors_def Let_def sqrt_sum_squares_eq too_far_def bindE_Inr bindE_Inl)

lemma update_sensors_fields:
  assumes "update_sensors r opp s = Inr u"
  shows "ammo u = ammo r" and "health u = health r"
    and "pos_x u = pos_x r" and "pos_y u = pos_y r"
  using assms by (auto simp: update_sensors_eq split: if_splits)

lemma execute_action_shoot:
  "execute_action ''shoot'' r opp s =
     (if ammo r > 0
      then (if py_mod (math_atan2 (pos_y opp - pos_y r) (pos_x opp - pos_x r) - direction r)
                 (2 * pi) < pi / 8 \<and> too_far r opp
            then Inl OverflowError
            else Inr (r\<lparr>last_action := Some ''shoot'', ammo := ammo r - 1\<rparr>,
                if py_mod (math_atan2 (pos_y opp - pos_y r) (pos_x opp - pos_x r) - direction r)
                     (2 * pi) < pi / 8
                   \<and> sqrt ((pos_x opp - pos_x r)\<^sup>2 + (pos_y opp - pos_y r)\<^sup>2) < 50
                then opp\<lparr>health := health opp - 20\<rparr> else opp))
      else Inr (r\<lparr>last_action := Some ''shoot''\<rparr>, opp))"
  by (simp add: execute_action_def Let_def sqrt_sum_squares_eq too_far_def bindE_Inr bindE_Inl
      py_mod_2pi_abs py_less_distance)

lemma execute_action_do_nothing:
  "execute_action ''do_nothing'' r opp s = Inr (r\<lparr>last_action := Some ''do_nothing''\<rparr>, opp)"
  by (simp add: execute_action_def Let_def)

lemma execute_action_other:
  "a \<noteq> ''shoot'' \<Longrightarrow>
   \<exists>r' o'. execute_action a r opp s = Inr (r', o') \<and> o' = opp
      \<and> (a = ''reload'' \<longrightarrow> ammo r' = min 50 (ammo r + 10))
      \<and> (a \<noteq> ''reload'' \<longrightarrow> ammo r' = ammo r)
      \<and> (in_arena s r \<longrightarrow> in_arena s r')"
  by (simp add: execute_action_def Let_def in_arena_def)

lemma execute_action_ammo:
  assumes "execute_action a r opp s = Inr (r', o')"
  shows "ammo o' = ammo opp
      \<and> (0 \<le> ammo r \<and> ammo r \<le> 50 \<longrightarrow> 0 \<le> ammo r' \<and> ammo r' \<le> 50)
      \<and> (a = ''shoot'' \<longrightarrow> ammo r' = (if ammo r > 0 then ammo r - 1 else ammo r))
      \<and> (a = ''reload'' \<longrightarrow> ammo r' = min 50 (ammo r + 10))
      \<and> (a \<noteq> ''shoot'' \<and> a \<noteq> ''reload'' \<longrightarrow> ammo r' = ammo r)"
proof (cases "a = ''shoot''")
  case True
  with assms show ?thesis by (auto simp: execute_action_shoot split: if_splits)
next
  case False
  from execute_action_other [OF False, of r opp s] assms False show ?thesis by auto
qed

lemma execute_action_raises:
  assumes "execute_action a r opp s = Inl e"
  shows "e = OverflowError \<and> a = ''shoot'' \<and> 0 < ammo r \<and> too_far r opp"
proof (cases "a = ''shoot''")
  case True
  with assms show ?thesis by (auto simp: execute_action_shoot split: if_splits)
next
  case False
  from execute_action_other [OF False, of r opp s] assms False show ?thesis by auto
qed

lemma execute_action_ammo_range:
  assumes "execute_action a r opp s = Inr (r', o')"
  shows "ammo o' = ammo opp"
    and "0 \<le> ammo r \<and> ammo r \<le> 50 \<Longrightarrow> 0 \<le> ammo r' \<and> ammo r' \<le> 50"
  using execute_action_ammo [OF assms] by auto

lemma tickE:
  assumes "tick func1 func2 s r1 r2 = Inr (a, b)"
  obtains u1 u2 a1 a2 p1 p2 where
    "update_sensors r1 r2 s = Inr u1" "update_sensors r2 u1 s = Inr u2"
    "execute_action a1 u1 u2 s = Inr (p1, p2)" "execute_action a2 p2 p1 s = Inr (b, a)"
  using assms by (auto simp: tick_def bindE_eq_Inr split: prod.splits)

lemma tick_ammo:
  assumes t: "tick func1 func2 s r1 r2 = Inr (a, b)"
    and 1: "0 \<le> ammo r1 \<and> ammo r1 \<le> 50" and 2: "0 \<le> ammo r2 \<and> ammo r2 \<le> 50"
  shows "(0 \<le> ammo a \<and> ammo a \<le> 50) \<and> (0 \<le> ammo b \<and> ammo b \<le> 50)"
proof -
  from t obtain u1 u2 a1 a2 p1 p2 where
    u1: "update_sensors r1 r2 s = Inr u1" and u2: "update_sensors r2 u1 s = Inr u2"
    and e1: "execute_action a1 u1 u2 s = Inr (p1, p2)"
    and e2: "execute_action a2 p2 p1 s = Inr (b, a)"
    by (rule tickE)
  have "ammo u1 = ammo r1" "ammo u2 = ammo r2"
    using u1 u2 by (simp_all add: update_sensors_fields)
  with 1 2 have "0 \<le> ammo p1 \<and> ammo p1 \<le> 50" "0 \<le> ammo p2 \<and> ammo p2 \<le> 50"
    using execute_action_ammo_range [OF e1] by simp_all
  then show ?thesis
    using execute_action_ammo_range [OF e2] by simp
qed

lemma battle_SucE:
  assumes "battle (Suc n) func1 func2 s r1 r2 = Inr (a, b, k)"
  obtains t1 t2 where "tick func1 func2 s r1 r2 = Inr (t1, t2)"
    and "health t1 \<le> 0 \<or> health t2 \<le> 0 \<longrightarrow> a = t1 \<and> b = t2 \<and> k = 1"
    and "\<not> (health t1 \<le> 0 \<or> health t2 \<le> 0) \<longrightarrow>
           (\<exists>j. battle n func1 func2 s t1 t2 = Inr (a, b, j) \<and> k = Suc j)"
  using assms by (auto simp: bindE_eq_Inr split: if_splits)

lemma battle_ammo:
  "battle n func1 func2 s r1 r2 = Inr (a, b, k) \<Longrightarrow>
   0 \<le> ammo r1 \<and> ammo r1 \<le> 50 \<Longrightarrow> 0 \<le> ammo r2 \<and> ammo r2 \<le> 50 \<Longrightarrow>
   (0 \<le> ammo a \<and> ammo a \<le> 50) \<and> (0 \<le> ammo b \<and> ammo b \<le> 50)"
proof (induction n arbitrary: r1 r2 a b k)
  case 0
  then show ?case by simp
next
  case (Suc n)
  from Suc.prems(1) obtain t1 t2 where
    t: "tick func1 func2 s r1 r2 = Inr (t1, t2)"
    and stop: "health t1 \<le> 0 \<or> health t2 \<le> 0 \<longrightarrow> a = t1 \<and> b = t2 \<and> k = 1"
    and go: "\<not> (health t1 \<le> 0 \<or> health t2 \<le> 0) \<longrightarrow>
           (\<exists>j. battle n func1 func2 s t1 t2 = Inr (a, b, j) \<and> k = Suc j)"
    by (rule battle_SucE)
  from tick_ammo [OF t Suc.prems(2) Suc.prems(3)]
  have ok: "0 \<le> ammo t1 \<and> ammo t1 \<le> 50" "0 \<le> ammo t2 \<and> ammo t2 \<le> 50" by simp_all
  show ?case
  proof (cases "health t1 \<le> 0 \<or> health t2 \<le> 0")
    case True
    with stop ok show ?thesis by simp
  next
    case False
    with go obtain j where "battle n func1 func2 s t1 t2 = Inr (a, b, j)" by blast
    from Suc.IH [OF this ok] show ?thesis .
  qed
qed


lemma award_Some: "fitness ind = Some f \<Longrightarrow> award ind = Inr (ind\<lparr>fitness := Some (f + 1)\<rparr>)"
  by (simp add: award_def)

text \<open>A tick of the shooter against the idler, both at (50, 50) facing 0.\<close>

lemma tick_shooter_idler:
  "tick shooter idler 200
     \<lparr>pos_x = 50, pos_y = 50, health = 100, ammo = a, direction = 0, last_action = l1,
      sensors = s1\<rparr>
     \<lparr>pos_x = 50, pos_y = 50, health = h, ammo = 50, direction = 0, last_action = l2,
      sensors = s2\<rparr>
   = Inr (\<lparr>pos_x = 50, pos_y = 50, health = 100, ammo = (if 0 < a then a - 1 else a),
           direction = 0, last_action = Some ''shoot'',
           sensors = \<lparr>enemy_distance = Fin 0, enemy_direction = 0, sens_health = 100,
                      sens_ammo = a, wall_distance = 50\<rparr>\<rparr>,
          \<lparr>pos_x = 50, pos_y = 50, health = (if 0 < a then h - 20 else h), ammo = 50,
           direction = 0, last_action = Some ''do_nothing'',
           sensors = \<lparr>enemy_distance = Fin 0, enemy_direction = 0, sens_health = h,
                      sens_ammo = 50, wall_distance = 50\<rparr>\<rparr>)"
  by (simp add: tick_def update_sensors_eq too_far_def small_below_limit bindE_Inr
      run_program_def shooter_def idler_def select_action_3 select_action_5
      execute_action_shoot execute_action_do_nothing math_atan2_def py_mod_def)

lemma battle_shooter_idler:
  "battle 100 shooter idler 200 (Robot 50 50 0) (Robot 50 50 0)
   = Inr (shooter_after, idler_after, 5)"
  by (simp add: eval_nat_numeral Robot_def Robot_init_def tick_shooter_idler bindE_Inr
      shooter_after_def idler_after_def)

lemma random_random_draws_from: "random_random (draws_from (x # xs)) = (x, draws_from xs)"
  by (auto simp: random_random_def draws_from_def fun_eq_iff)

lemma new_robot_draws: "new_robot 200 (draws_from (0 # 0 # 0 # xs)) = (Robot 50 50 0, draws_from xs)"
  by (simp add: new_robot_def random_uniform_def random_random_draws_from)

lemma compile_constant_3_5: "compile_constant 3 = shooter" "compile_constant 5 = idler"
  by (simp_all add: compile_constant_def shooter_def idler_def)

lemma play_match_shooter_idler:
  "play_match compile_constant 200 100 \<lparr>tree = 3, fitness = Some f1\<rparr> \<lparr>tree = 5, fitness = f2\<rparr>
       (draws_from (0 # 0 # 0 # 0 # 0 # 0 # xs))
   = Inr (\<lparr>tree = 3, fitness = Some (f1 + 1)\<rparr>, \<lparr>tree = 5, fitness = f2\<rparr>,
          (shooter_after, idler_after, 5), draws_from xs)"
proof -
  have h: "health shooter_after = 100" "health idler_after = 0"
    by (simp_all add: shooter_after_def idler_after_def)
  have n: "nat 100 = 100" by simp
  show ?thesis
    by (simp only: play_match_def new_robot_draws Let_def prod.case compile_constant_3_5
        individual.simps n battle_shooter_idler bindE_Inr)
      (simp add: h award_def bindE_Inr)
qed

lemma evaluate_shooter_idler:
  "evaluate_individuals [\<lparr>tree = 3, fitness = f1\<rparr>] [\<lparr>tree = 5, fitness = f2\<rparr>]
       compile_constant 200 100 (draws_from (0 # 0 # 0 # 0 # 0 # 0 # xs))
   = Inr ([\<lparr>tree = 3, fitness = Some ((case f1 of None \<Rightarrow> 0 | Some v \<Rightarrow> v) + 1)\<rparr>],
          [\<lparr>tree = 5, fitness = Some (case f2 of None \<Rightarrow> 0 | Some v \<Rightarrow> v)\<rparr>],
          [[(shooter_after, idler_after, 5)]], draws_from xs)"
  by (cases f1; cases f2)
    (simp_all add: evaluate_individuals_def init_fitness_def play_match_shooter_idler bindE_Inr)

lemma generation_carries_score:
  "generation constant_toolbox [\<lparr>tree = 3, fitness = Some 1\<rparr>] [\<lparr>tree = 5, fitness = Some 0\<rparr>]
       (draws_from (1 / 2 # 1 / 2 # 0 # 0 # 0 # 0 # 0 # 0 # xs))
   = Inr ([\<lparr>tree = 3, fitness = Some 2\<rparr>], [\<lparr>tree = 5, fitness = Some 0\<rparr>], (2, 2, 0, 0),
          [[(shooter_after, idler_after, 5)]], draws_from xs)"
  by (simp add: generation_def constant_toolbox_def random_random_draws_from
      evaluate_shooter_idler bindE_Inr average_def py_max_def)

lemma evaluate_empty: "evaluate_individuals [] [] cmp s m g = Inr ([], [], [], g)"
  by (simp add: evaluate_individuals_def init_fitness_def)

lemma population_constant:
  "population constant_toolbox 1 (draws_from (0 # xs)) = ([\<lparr>tree = 3, fitness = None\<rparr>], draws_from xs)"
  "population constant_toolbox 1 (draws_from (1 / 2 # xs)) = ([\<lparr>tree = 5, fitness = None\<rparr>], draws_from xs)"
  by (simp_all add: population_def individual_def constant_toolbox_def random_random_draws_from)

lemma coevolution_full_run:
  "coevolution constant_toolbox 1 1
     (draws_from [0, 1 / 2, 0, 0, 0, 0, 0, 0, 1 / 2, 1 / 2, 0, 0, 0, 0, 0, 0])
   = Inr ([\<lparr>tree = 3, fitness = Some 2\<rparr>], [\<lparr>tree = 5, fitness = Some 0\<rparr>], [2], [2], [0], [0])"
proof -
  have c: "compile constant_toolbox = compile_constant" by (simp add: constant_toolbox_def)
  show ?thesis
    by (simp add: coevolution_def population_constant c evaluate_shooter_idler bindE_Inr
        generation_carries_score)
qed

lemma coevolution_no_generations:
  "coevolution constant_toolbox 1 (- 1) (draws_from [0, 1 / 2, 0, 0, 0, 0, 0, 0])
   = Inr ([\<lparr>tree = 3, fitness = Some 1\<rparr>], [\<lparr>tree = 5, fitness = Some 0\<rparr>], [], [], [], [])"
proof -
  have c: "compile constant_toolbox = compile_constant" by (simp add: constant_toolbox_def)
  show ?thesis
    by (simp add: coevolution_def population_constant c evaluate_shooter_idler bindE_Inr)
qed

lemma coevolution_generations_le_0:
  assumes "generations \<le> 0"
  shows "coevolution tb pop_size generations g =
     bindE (evaluate_individuals (fst (population tb pop_size g))
              (fst (population tb pop_size (snd (population tb pop_size g))))
              (compile tb) 200 100 (snd (population tb pop_size (snd (population tb pop_size g)))))
       (\<lambda>(pop1, pop2, rows, g3). Inr (pop1, pop2, [], [], [], []))"
  using assms by (simp add: coevolution_def split: prod.splits)

lemma population_le_0: "pop_size \<le> 0 \<Longrightarrow> population tb pop_size g = ([], g)"
  by (simp add: population_def)

lemma coevolution_empty:
  assumes "pop_size \<le> 0" "generations \<le> 0"
  shows "coevolution tb pop_size generations g = Inr ([], [], [], [], [], [])"
  using assms by (simp add: coevolution_def population_le_0 evaluate_empty bindE_Inr)

lemma generation_empty:
  assumes "\<forall>h. fst (select tb [] 0 h) = []"
  shows "generation tb [] [] g = Inl ZeroDivisionError"
proof -
  obtain g1 where 1: "select tb [] 0 g = ([], g1)" using assms by (metis fst_conv surj_pair)
  obtain g2 where 2: "select tb [] 0 g1 = ([], g2)" using assms by (metis fst_conv surj_pair)
  show ?thesis
    by (simp add: generation_def 1 2 evaluate_empty bindE_Inr bindE_Inl average_def)
qed

lemma coevolution_empty_population:
  assumes "pop_size \<le> 0" "0 < generations" "\<forall>h. fst (select tb [] 0 h) = []"
  shows "coevolution tb pop_size generations g = Inl ZeroDivisionError"
proof -
  from assms(2) obtain n where n: "nat generations = Suc n" by (cases "nat generations") auto
  show ?thesis
    by (simp add: coevolution_def population_le_0 [OF assms(1)] evaluate_empty bindE_Inr n
        generation_empty [OF assms(3)] bindE_Inl)
qed

lemma carried_Some: "fitness x = Some f \<Longrightarrow> carried x = f"
  by (simp add: carried_def)

lemma credit_simps:
  "tree (credit n x) = tree x" "fitness (credit n x) = Some (carried x + n)"
  "carried (credit n x) = carried x + n" "credit m (credit n x) = credit (n + m) x"
  by (simp_all add: credit_def carried_def)

lemma credit_zero: "fitness x \<noteq> None \<Longrightarrow> credit 0 x = x"
  by (cases x) (auto simp: credit_def carried_def)

lemma play_match_result:
  assumes m: "play_match cmp s max_steps ind1 ind2 g = Inr (ind1', ind2', res, g')"
    and f1: "fitness ind1 \<noteq> None" and f2: "fitness ind2 \<noteq> None"
  shows "ind1' = credit (if first_won res then 1 else 0) ind1"
    and "ind2' = credit (if second_won res then 1 else 0) ind2"
proof -
  from f1 obtain a where a: "fitness ind1 = Some a" by blast
  from f2 obtain b where b: "fitness ind2 = Some b" by blast
  obtain q1 h1 where n1: "new_robot s g = (q1, h1)" by (cases "new_robot s g")
  obtain q2 h2 where n2: "new_robot s h1 = (q2, h2)" by (cases "new_robot s h1")
  from m n1 n2 a b show "ind1' = credit (if first_won res then 1 else 0) ind1"
    by (auto simp: play_match_def Let_def bindE_eq_Inr award_Some credit_def carried_def
        first_won_def split: if_splits)
  from m n1 n2 a b show "ind2' = credit (if second_won res then 1 else 0) ind2"
    by (auto simp: play_match_def Let_def bindE_eq_Inr award_Some credit_def carried_def
        second_won_def split: if_splits)
qed

lemma versus_all_tally:
  "versus_all cmp s max_steps ind1 pop2 g = Inr (ind1', pop2', row, g') \<Longrightarrow>
   fitness ind1 \<noteq> None \<Longrightarrow> (\<forall>x \<in> set pop2. fitness x \<noteq> None) \<Longrightarrow>
   length pop2' = length pop2 \<and> length row = length pop2
   \<and> ind1' = credit (int (length (filter first_won row))) ind1
   \<and> (\<forall>j < length pop2. pop2' ! j = credit (if second_won (row ! j) then 1 else 0) (pop2 ! j))"
proof (induction pop2 arbitrary: ind1 ind1' pop2' row g g')
  case Nil
  then show ?case by (simp add: credit_zero)
next
  case (Cons ind2 pop2)
  from Cons.prems(1) obtain a b res h rest' row' where
    m: "play_match cmp s max_steps ind1 ind2 g = Inr (a, b, res, h)"
    and v: "versus_all cmp s max_steps a pop2 h = Inr (ind1', rest', row', g')"
    and eq: "pop2' = b # rest'" "row = res # row'"
    by (auto simp: bindE_eq_Inr split: prod.splits)
  from Cons.prems have f1: "fitness ind1 \<noteq> None" and f2: "fitness ind2 \<noteq> None"
    and fr: "\<forall>x \<in> set pop2. fitness x \<noteq> None" by simp_all
  from play_match_result [OF m f1 f2]
  have a: "a = credit (if first_won res then 1 else 0) ind1"
    and b: "b = credit (if second_won res then 1 else 0) ind2" by simp_all
  from a have fa: "fitness a \<noteq> None" by (simp add: credit_simps)
  from Cons.IH [OF v fa fr]
  have ih: "length rest' = length pop2" "length row' = length pop2"
    "ind1' = credit (int (length (filter first_won row'))) a"
    "\<forall>j < length pop2. rest' ! j = credit (if second_won (row' ! j) then 1 else 0) (pop2 ! j)"
    by simp_all
  have 1: "ind1' = credit (int (length (filter first_won row))) ind1"
    using ih(3) a eq by (simp add: credit_simps)
  have 2: "\<forall>j < length (ind2 # pop2). pop2' ! j
      = credit (if second_won (row ! j) then 1 else 0) ((ind2 # pop2) ! j)"
  proof (intro allI impI)
    fix j assume "j < length (ind2 # pop2)"
    then show "pop2' ! j = credit (if second_won (row ! j) then 1 else 0) ((ind2 # pop2) ! j)"
      using ih(4) b eq by (cases j) simp_all
  qed
  from 1 2 ih(1,2) eq show ?case by simp
qed

lemma competition_tally:
  "competition cmp s max_steps pop1 pop2 g = Inr (new1, new2, rows, g') \<Longrightarrow>
   (\<forall>x \<in> set pop1. fitness x \<noteq> None) \<Longrightarrow> (\<forall>x \<in> set pop2. fitness x \<noteq> None) \<Longrightarrow>
   length new1 = length pop1 \<and> length new2 = length pop2 \<and> length rows = length pop1
   \<and> (\<forall>row \<in> set rows. length row = length pop2)
   \<and> (\<forall>i < length pop1. new1 ! i = credit (wins1 rows i) (pop1 ! i))
   \<and> (\<forall>j < length pop2. new2 ! j = credit (wins2 rows j) (pop2 ! j))"
proof (induction pop1 arbitrary: pop2 new1 new2 rows g g')
  case Nil
  then show ?case by (auto simp: wins2_def credit_zero)
next
  case (Cons ind1 pop1)
  from Cons.prems(1) obtain a mid row h rest' rows' where
    v: "versus_all cmp s max_steps ind1 pop2 g = Inr (a, mid, row, h)"
    and c: "competition cmp s max_steps pop1 mid h = Inr (rest', new2, rows', g')"
    and eq: "new1 = a # rest'" "rows = row # rows'"
    by (auto simp: bindE_eq_Inr split: prod.splits)
  from Cons.prems have f1: "fitness ind1 \<noteq> None" and fr: "\<forall>x \<in> set pop1. fitness x \<noteq> None"
    and f2: "\<forall>x \<in> set pop2. fitness x \<noteq> None" by simp_all
  from versus_all_tally [OF v f1 f2]
  have va: "length mid = length pop2" "length row = length pop2"
    "a = credit (int (length (filter first_won row))) ind1"
    "\<forall>j < length pop2. mid ! j = credit (if second_won (row ! j) then 1 else 0) (pop2 ! j)"
    by simp_all
  have fm: "\<forall>x \<in> set mid. fitness x \<noteq> None"
  proof
    fix x assume "x \<in> set mid"
    then obtain j where "j < length mid" "x = mid ! j" by (auto simp: in_set_conv_nth)
    with va show "fitness x \<noteq> None" by (simp add: credit_simps)
  qed
  from Cons.IH [OF c fr fm]
  have ih: "length rest' = length pop1" "length new2 = length mid" "length rows' = length pop1"
    "\<forall>r \<in> set rows'. length r = length mid"
    "\<forall>i < length pop1. rest' ! i = credit (wins1 rows' i) (pop1 ! i)"
    "\<forall>j < length mid. new2 ! j = credit (wins2 rows' j) (mid ! j)"
    by simp_all
  have 1: "\<forall>i < length (ind1 # pop1). new1 ! i = credit (wins1 rows i) ((ind1 # pop1) ! i)"
  proof (intro allI impI)
    fix i assume "i < length (ind1 # pop1)"
    then show "new1 ! i = credit (wins1 rows i) ((ind1 # pop1) ! i)"
      using ih(5) va(3) eq by (cases i) (simp_all add: wins1_def)
  qed
  have 2: "\<forall>j < length pop2. new2 ! j = credit (wins2 rows j) (pop2 ! j)"
  proof (intro allI impI)
    fix j assume j: "j < length pop2"
    with ih(6) va(1) have "new2 ! j = credit (wins2 rows' j) (mid ! j)" by simp
    also from va(4) j have "mid ! j = credit (if second_won (row ! j) then 1 else 0) (pop2 ! j)"
      by simp
    finally show "new2 ! j = credit (wins2 rows j) (pop2 ! j)"
      using eq by (simp add: credit_simps wins2_def)
  qed
  from 1 2 ih va eq show ?case by simp
qed

lemma init_fitness_facts:
  "length (init_fitness pop) = length pop"
  "\<forall>x \<in> set (init_fitness pop). fitness x \<noteq> None"
  "i < length pop \<Longrightarrow> credit n (init_fitness pop ! i) = credit n (pop ! i)"
  by (auto simp: init_fitness_def credit_def carried_def)

lemma evaluate_individuals_tally:
  assumes "evaluate_individuals pop1 pop2 cmp s max_steps g = Inr (new1, new2, rows, g')"
  shows "length new1 = length pop1 \<and> length new2 = length pop2 \<and> length rows = length pop1
   \<and> (\<forall>row \<in> set rows. length row = length pop2)
   \<and> (\<forall>i < length pop1. new1 ! i = credit (wins1 rows i) (pop1 ! i))
   \<and> (\<forall>j < length pop2. new2 ! j = credit (wins2 rows j) (pop2 ! j))"
  using competition_tally [OF assms [unfolded evaluate_individuals_def]
      init_fitness_facts(2) init_fitness_facts(2)]
  by (simp add: init_fitness_facts)

lemma subtree_at_defined:
  "i < tree_size t \<Longrightarrow> \<exists>s. subtree_at t i = Some s"
  "j < sum_list (map tree_size cs) \<Longrightarrow> \<exists>s. subtree_at_list cs j = Some s"
  by (induction t i and cs j rule: subtree_at_subtree_at_list.induct) auto

lemma replace_at_size:
  "subtree_at t i = Some s \<Longrightarrow> tree_size (replace_at t i u) + tree_size s = tree_size t + tree_size u"
  "subtree_at_list cs j = Some s \<Longrightarrow>
     sum_list (map tree_size (replace_at_list cs j u)) + tree_size s
       = sum_list (map tree_size cs) + tree_size u"
  by (induction t i and cs j rule: subtree_at_subtree_at_list.induct) (auto split: if_splits)

lemma mutation_pass_marks:
  "list_all2 (\<lambda>old new. new = old \<or> fitness new = None) pop (fst (mutation_pass tb pop g))"
proof (induction pop arbitrary: g)
  case Nil
  show ?case by simp
next
  case (Cons a pop)
  obtain u g1 where r: "random_random g = (u, g1)" by (cases "random_random g")
  obtain t g2 where m: "mutate tb (tree a) g1 = (t, g2)" by (cases "mutate tb (tree a) g1")
  obtain rest2 g3 where p2: "mutation_pass tb pop g2 = (rest2, g3)"
    by (cases "mutation_pass tb pop g2")
  obtain rest1 g4 where p1: "mutation_pass tb pop g1 = (rest1, g4)"
    by (cases "mutation_pass tb pop g1")
  from Cons.IH [of g2] p2 have i2: "list_all2 (\<lambda>old new. new = old \<or> fitness new = None) pop rest2"
    by simp
  from Cons.IH [of g1] p1 have i1: "list_all2 (\<lambda>old new. new = old \<or> fitness new = None) pop rest1"
    by simp
  show ?case by (simp add: r m p1 p2 i1 i2)
qed

lemma crossover_pass_marks:
  "list_all2 (\<lambda>old new. new = old \<or> fitness new = None) pop (fst (crossover_pass tb pop g))"
proof (induction pop arbitrary: g rule: induct_list012)
  case 1
  show ?case by simp
next
  case (2 x)
  show ?case by simp
next
  case (3 c1 c2 rest)
  obtain u g1 where r: "random_random g = (u, g1)" by (cases "random_random g")
  obtain t1 t2 g2 where m: "mate tb (tree c1) (tree c2) g1 = ((t1, t2), g2)"
    by (metis surj_pair)
  obtain rest2 g3 where p2: "crossover_pass tb rest g2 = (rest2, g3)"
    by (cases "crossover_pass tb rest g2")
  obtain rest1 g4 where p1: "crossover_pass tb rest g1 = (rest1, g4)"
    by (cases "crossover_pass tb rest g1")
  from "3.IH"(1) [of g2] p2 have i2: "list_all2 (\<lambda>old new. new = old \<or> fitness new = None) rest rest2"
    by simp
  from "3.IH"(1) [of g1] p1 have i1: "list_all2 (\<lambda>old new. new = old \<or> fitness new = None) rest rest1"
    by simp
  show ?case by (simp add: r m p1 p2 i1 i2)
qed

lemma select_action_member: "\<exists>a. select_action (Fin v) = Inr a \<and> a \<in> set actions"
proof -
  have "0 \<le> \<lfloor>\<bar>v\<bar>\<rfloor> mod 6 \<and> \<lfloor>\<bar>v\<bar>\<rfloor> mod 6 < 6" by simp
  then have "nat (\<lfloor>\<bar>v\<bar>\<rfloor> mod 6) < length actions" by (simp add: actions_def)
  then show ?thesis by (simp add: select_action_Fin)
qed

lemma in_arena_near:
  assumes r: "in_arena s r" and o: "in_arena s opp" and b: "2 * s\<^sup>2 < float_limit"
  shows "\<not> too_far r opp"
    and "\<not> float_limit \<le> (pos_x opp - pos_x r)\<^sup>2 + (pos_y opp - pos_y r)\<^sup>2"
proof -
  from r o have x: "\<bar>pos_x opp - pos_x r\<bar> \<le> \<bar>s\<bar>" and y: "\<bar>pos_y opp - pos_y r\<bar> \<le> \<bar>s\<bar>"
    by (auto simp: in_arena_def)
  from x have x2: "(pos_x opp - pos_x r)\<^sup>2 \<le> s\<^sup>2" by (simp only: abs_le_square_iff)
  from y have y2: "(pos_y opp - pos_y r)\<^sup>2 \<le> s\<^sup>2" by (simp only: abs_le_square_iff)
  have s2: "0 \<le> s\<^sup>2" by simp
  show "\<not> too_far r opp"
    unfolding too_far_def using x2 y2 s2 b by linarith
  from x2 y2 b show "\<not> float_limit \<le> (pos_x opp - pos_x r)\<^sup>2 + (pos_y opp - pos_y r)\<^sup>2"
    by linarith
qed

lemma update_sensors_in_arena:
  assumes r: "in_arena s r" and o: "in_arena s opp" and b: "2 * s\<^sup>2 < float_limit"
  shows "\<exists>u. update_sensors r opp s = Inr u \<and> in_arena s u"
  using in_arena_near(1) [OF r o b] r by (simp add: update_sensors_eq in_arena_def)

lemma execute_action_in_arena:
  assumes r: "in_arena s r" and o: "in_arena s opp" and b: "2 * s\<^sup>2 < float_limit"
  shows "\<exists>r' o'. execute_action a r opp s = Inr (r', o') \<and> in_arena s r' \<and> in_arena s o'"
proof (cases "a = ''shoot''")
  case True
  with in_arena_near(1) [OF r o b] r o show ?thesis
    by (simp add: execute_action_shoot in_arena_def)
next
  case False
  from execute_action_other [OF False, of r opp s] r o show ?thesis by auto
qed

lemma is_finite_Fin: "is_finite res \<Longrightarrow> \<exists>v. res = Inr (Fin v)"
  by (cases res rule: is_finite.cases) simp_all

lemma tick_returns:
  assumes r1: "in_arena s r1" and r2: "in_arena s r2" and b: "2 * s\<^sup>2 < float_limit"
    and f: "finite_outputs func1 func2 s r1 r2"
  shows "\<exists>a b. tick func1 func2 s r1 r2 = Inr (a, b) \<and> in_arena s a \<and> in_arena s b"
proof -
  from update_sensors_in_arena [OF r1 r2 b] obtain u1 where
    u1: "update_sensors r1 r2 s = Inr u1" and i1: "in_arena s u1" by blast
  from update_sensors_in_arena [OF r2 i1 b] obtain u2 where
    u2: "update_sensors r2 u1 s = Inr u2" and i2: "in_arena s u2" by blast
  from f u1 u2 have "is_finite (run_program func1 u1)" "is_finite (run_program func2 u2)"
    by (simp_all add: finite_outputs_def)
  then obtain v1 v2 where v1: "run_program func1 u1 = Inr (Fin v1)"
    and v2: "run_program func2 u2 = Inr (Fin v2)"
    using is_finite_Fin by blast
  obtain a1 where a1: "select_action (Fin v1) = Inr a1" using select_action_member by blast
  obtain a2 where a2: "select_action (Fin v2) = Inr a2" using select_action_member by blast
  from execute_action_in_arena [OF i1 i2 b] obtain p1 p2 where
    e1: "execute_action a1 u1 u2 s = Inr (p1, p2)" and j1: "in_arena s p1" and j2: "in_arena s p2"
    by blast
  from execute_action_in_arena [OF j2 j1 b] obtain q2 q1 where
    e2: "execute_action a2 p2 p1 s = Inr (q2, q1)" and k2: "in_arena s q2" and k1: "in_arena s q1"
    by blast
  have "tick func1 func2 s r1 r2 = Inr (q1, q2)"
    by (simp add: tick_def u1 u2 v1 v2 a1 a2 e1 e2 bindE_Inr)
  with k1 k2 show ?thesis by blast
qed

lemma battle_returns:
  "in_arena s r1 \<Longrightarrow> in_arena s r2 \<Longrightarrow> 2 * s\<^sup>2 < float_limit \<Longrightarrow>
   finite_run n func1 func2 s r1 r2 \<Longrightarrow>
   \<exists>q1 q2 k. battle n func1 func2 s r1 r2 = Inr (q1, q2, k)"
proof (induction n arbitrary: r1 r2)
  case 0
  show ?case by simp
next
  case (Suc n)
  from Suc.prems(4) have f: "finite_outputs func1 func2 s r1 r2" by simp
  from tick_returns [OF Suc.prems(1) Suc.prems(2) Suc.prems(3) f] obtain a b where
    t: "tick func1 func2 s r1 r2 = Inr (a, b)" and ia: "in_arena s a" and ib: "in_arena s b"
    by blast
  show ?case
  proof (cases "health a \<le> 0 \<or> health b \<le> 0")
    case True
    with t show ?thesis by (simp add: bindE_Inr)
  next
    case False
    with Suc.prems(4) t have "finite_run n func1 func2 s a b" by simp
    from Suc.IH [OF ia ib Suc.prems(3) this] obtain q1 q2 k where
      "battle n func1 func2 s a b = Inr (q1, q2, k)" by blast
    with t False show ?thesis by (simp add: bindE_Inr)
  qed
qed

lemma uniform_between:
  assumes "0 \<le> u" "u \<le> 1" "0 \<le> lo" "0 \<le> hi" "lo \<le> s" "hi \<le> s"
  shows "0 \<le> lo + (hi - lo) * u \<and> lo + (hi - lo) * u \<le> (s::real)"
proof -
  have e: "lo + (hi - lo) * u = (1 - u) * lo + u * hi" by (simp add: algebra_simps)
  have n: "0 \<le> (1 - u) * lo" "0 \<le> u * hi" using assms by simp_all
  have "(1 - u) * lo \<le> (1 - u) * s" using assms by (intro mult_left_mono) simp_all
  moreover have "u * hi \<le> u * s" using assms by (intro mult_left_mono) simp_all
  moreover have "(1 - u) * s + u * s = s" by (simp add: algebra_simps)
  ultimately show ?thesis using n e by linarith
qed

lemma new_robot_in_arena:
  assumes s: "50 \<le> s" and g: "0 \<le> g 0" "g 0 \<le> 1" "0 \<le> g 1" "g 1 \<le> 1"
  shows "in_arena s (fst (new_robot s g))"
proof -
  from s have b: "(0::real) \<le> 50" "0 \<le> s - 50" "50 \<le> s" "s - 50 \<le> s" by simp_all
  from uniform_between [OF g(1) g(2) b] uniform_between [OF g(3) g(4) b]
  show ?thesis
    by (simp add: new_robot_def random_uniform_def random_random_def in_arena_def Robot_def
        Robot_init_def split: prod.splits)
qed

lemma finite_outputs_shooter_idler: "finite_outputs shooter idler s r1 r2"
  by (simp add: finite_outputs_def run_program_def shooter_def idler_def split: sum.splits)

lemma finite_run_shooter_idler: "finite_run n shooter idler s r1 r2"
  by (induction n arbitrary: r1 r2)
    (simp_all add: finite_outputs_shooter_idler split: sum.splits prod.splits)

section \<open>The action mapping\<close>

text \<open>
  C3. For every finite output \<open>r\<close>, \<open>select_action\<close> returns without raising the
  element of the ordered action list at index \<open>floor(|r|) mod 6\<close>, and that index
  lies in \<open>{0..5}\<close>. Output 7.9 gives \<open>turn_left\<close>, output -6.0 gives \<open>move_forward\<close>.
\<close>

theorem select_action_finite:
  "select_action (Fin r) = Inr (actions ! nat (\<lfloor>\<bar>r\<bar>\<rfloor> mod 6))
   \<and> \<lfloor>\<bar>r\<bar>\<rfloor> mod 6 \<in> {0..5}
   \<and> actions = [''move_forward'', ''turn_left'', ''turn_right'', ''shoot'', ''reload'',
                ''do_nothing'']
   \<and> select_action (Fin (79 / 10)) = Inr ''turn_left''
   \<and> select_action (Fin (- 6)) = Inr ''move_forward''"
proof -
  have rng: "0 \<le> \<lfloor>\<bar>r\<bar>\<rfloor> mod 6 \<and> \<lfloor>\<bar>r\<bar>\<rfloor> mod 6 < 6" by simp
  have f1: "\<lfloor>(79::real) / 10\<rfloor> = 7" by linarith
  have e1: "select_action (Fin (79 / 10)) = Inr ''turn_left''"
    by (simp add: select_action_Fin f1 actions_def)
  have e2: "select_action (Fin (- 6)) = Inr ''move_forward''"
    by (simp add: select_action_Fin actions_def)
  from rng have "\<lfloor>\<bar>r\<bar>\<rfloor> mod 6 \<in> {0..5}" by simp
  with e1 e2 show ?thesis by (simp add: select_action_Fin actions_def)
qed

section \<open>Protected division\<close>

text \<open>
  C6, as amended. \<open>protected_div\<close> returns 1 whenever the division raises
  ZeroDivisionError: for the int 0 as divisor with any numerator, and for the float 0
  as divisor with any float numerator and any int numerator that fits a float. For a
  divisor that is not zero it returns the quotient as a float (an infinity when the
  quotient of two finite floats is beyond the float range). It does not catch the
  OverflowError of the division: the one of an int operand too large for a float next
  to a float operand, and the one of a quotient of two ints too large for a float.
  It raises nothing else.
\<close>

theorem protected_div_cases:
  "protected_div a (PyInt 0) = Inr (PyInt 1)
   \<and> protected_div (PyFloat f) (PyFloat (Fin 0)) = Inr (PyInt 1)
   \<and> protected_div (PyInt i) (PyFloat (Fin 0)) =
       (if float_limit \<le> \<bar>of_int i\<bar> then Inl OverflowError else Inr (PyInt 1))
   \<and> protected_div (PyInt i) (PyInt j) =
       (if j = 0 then Inr (PyInt 1)
        else if float_limit \<le> \<bar>of_int i / of_int j\<bar> then Inl OverflowError
        else Inr (PyFloat (Fin (of_int i / of_int j))))
   \<and> protected_div (PyFloat (Fin x)) (PyFloat (Fin y)) =
       (if y = 0 then Inr (PyInt 1) else Inr (PyFloat (to_float (x / y))))
   \<and> protected_div (PyInt i) (PyFloat (Fin y)) =
       (if float_limit \<le> \<bar>of_int i\<bar> then Inl OverflowError
        else if y = 0 then Inr (PyInt 1) else Inr (PyFloat (to_float (of_int i / y))))
   \<and> protected_div (PyFloat (Fin x)) (PyInt j) =
       (if float_limit \<le> \<bar>of_int j\<bar> then Inl OverflowError
        else if j = 0 then Inr (PyInt 1) else Inr (PyFloat (to_float (x / of_int j))))
   \<and> protected_div a b \<noteq> Inl ZeroDivisionError
   \<and> protected_div a b \<noteq> Inl ValueError
   \<and> protected_div a b \<noteq> Inl IndexError"
proof -
  have z: "\<not> float_limit \<le> 0" using float_limit_pos by simp
  have 1: "protected_div a (PyInt 0) = Inr (PyInt 1)"
    by (cases a) (simp_all add: protected_div_def bindE_def z)
  have 2: "protected_div (PyFloat f) (PyFloat (Fin 0)) = Inr (PyInt 1)"
    by (simp add: protected_div_def bindE_def)
  have 3: "protected_div (PyInt i) (PyFloat (Fin y)) =
       (if float_limit \<le> \<bar>of_int i\<bar> then Inl OverflowError
        else if y = 0 then Inr (PyInt 1) else Inr (PyFloat (to_float (of_int i / y))))" for y
    by (simp add: protected_div_def bindE_def)
  have 4: "protected_div (PyInt i) (PyInt j) =
       (if j = 0 then Inr (PyInt 1)
        else if float_limit \<le> \<bar>of_int i / of_int j\<bar> then Inl OverflowError
        else Inr (PyFloat (Fin (of_int i / of_int j))))"
    by (simp add: protected_div_def)
  have 5: "protected_div (PyFloat (Fin x)) (PyFloat (Fin y)) =
       (if y = 0 then Inr (PyInt 1) else Inr (PyFloat (to_float (x / y))))"
    by (simp add: protected_div_def bindE_def)
  have 6: "protected_div (PyFloat (Fin x)) (PyInt j) =
       (if float_limit \<le> \<bar>of_int j\<bar> then Inl OverflowError
        else if j = 0 then Inr (PyInt 1) else Inr (PyFloat (to_float (x / of_int j))))"
    by (simp add: protected_div_def bindE_def)
  have e: "protected_div a b = Inl e \<Longrightarrow> e = OverflowError" for e
    by (cases a; cases b)
      (auto simp: protected_div_def bindE_def split: sum.splits if_splits)
  have 7: "protected_div a b \<noteq> Inl ZeroDivisionError" "protected_div a b \<noteq> Inl ValueError"
    "protected_div a b \<noteq> Inl IndexError"
    using e by fastforce+
  from 3 [of 0] have c3: "protected_div (PyInt i) (PyFloat (Fin 0)) =
       (if float_limit \<le> \<bar>of_int i\<bar> then Inl OverflowError else Inr (PyInt 1))" by simp
  from 1 2 c3 4 5 3 [of y] 6 7 show ?thesis by (intro conjI)
qed

text \<open>
  C6 as stated fails: with the int \<open>2^1100\<close> as numerator and the int 1 as divisor the
  quotient is too large for a float, the division raises OverflowError and
  \<open>protected_div\<close> lets it pass; the same int over the float 0 does not give 1 either.
\<close>

theorem protected_div_overflow_counterexample:
  "protected_div (PyInt (2 ^ 1100)) (PyInt 1) = Inl OverflowError
   \<and> protected_div (PyInt (2 ^ 1100)) (PyFloat (Fin 0)) = Inl OverflowError"
proof -
  have "(2::real) ^ 1024 \<le> 2 ^ 1100" by (rule power_increasing) simp_all
  with float_limit_le have "float_limit \<le> 2 ^ 1100" by linarith
  then show ?thesis by (simp add: protected_div_def bindE_def)
qed

section \<open>The outcome of a match\<close>



section \<open>Shooting\<close>

text \<open>
  C4, as amended. Executing \<open>shoot\<close> always records the action in \<open>last_action\<close>.
  With no ammo that is the only change. With ammo, the ammo decreases by exactly 1, and
  the opponent's health decreases by exactly 20 if and only if the angle to the opponent
  minus the own heading, wrapped to \<open>[0, 2\<pi>)\<close>, is below \<open>\<pi>/8\<close> and the distance is
  below 50; nothing else changes. The one exception: when the angle is below \<open>\<pi>/8\<close> and
  the opponent is so far away that a squared coordinate difference is beyond the float
  range, the distance computation raises OverflowError. A shooter at (60, 100) facing 0
  takes an opponent at (100, 100) from health 100 to 80 and its own ammo from 50 to 49.
\<close>

theorem shoot_semantics:
  "execute_action ''shoot'' r opp s =
     (if ammo r > 0
      then (if py_mod (math_atan2 (pos_y opp - pos_y r) (pos_x opp - pos_x r) - direction r)
                 (2 * pi) < pi / 8 \<and> too_far r opp
            then Inl OverflowError
            else Inr (r\<lparr>last_action := Some ''shoot'', ammo := ammo r - 1\<rparr>,
                if py_mod (math_atan2 (pos_y opp - pos_y r) (pos_x opp - pos_x r) - direction r)
                     (2 * pi) < pi / 8
                   \<and> sqrt ((pos_x opp - pos_x r)\<^sup>2 + (pos_y opp - pos_y r)\<^sup>2) < 50
                then opp\<lparr>health := health opp - 20\<rparr> else opp))
      else Inr (r\<lparr>last_action := Some ''shoot''\<rparr>, opp))
   \<and> 0 \<le> py_mod (math_atan2 (pos_y opp - pos_y r) (pos_x opp - pos_x r) - direction r) (2 * pi)
   \<and> py_mod (math_atan2 (pos_y opp - pos_y r) (pos_x opp - pos_x r) - direction r) (2 * pi) < 2 * pi
   \<and> execute_action ''shoot'' (Robot 60 100 0) (Robot 100 100 f) s =
       Inr ((Robot 60 100 0)\<lparr>last_action := Some ''shoot'', ammo := 49\<rparr>,
            (Robot 100 100 f)\<lparr>health := 80\<rparr>)"
proof -
  have ex: "execute_action ''shoot'' (Robot 60 100 0) (Robot 100 100 f) s =
       Inr ((Robot 60 100 0)\<lparr>last_action := Some ''shoot'', ammo := 49\<rparr>,
            (Robot 100 100 f)\<lparr>health := 80\<rparr>)"
    by (simp add: execute_action_shoot too_far_def small_below_limit Robot_def Robot_init_def
        math_atan2_def py_mod_def)
  have r1: "0 \<le> py_mod (math_atan2 (pos_y opp - pos_y r) (pos_x opp - pos_x r) - direction r) (2 * pi)"
    using py_mod_range [of "2 * pi"] by simp
  have r2: "py_mod (math_atan2 (pos_y opp - pos_y r) (pos_x opp - pos_x r) - direction r) (2 * pi) < 2 * pi"
    using py_mod_range [of "2 * pi"] by simp
  show ?thesis
    by (intro conjI execute_action_shoot r1 r2 ex)
qed

text \<open>
  C4 as stated fails: a robot that has run out of ammo and then did nothing is changed
  by a further \<open>shoot\<close>, which overwrites its \<open>last_action\<close>. And a \<open>shoot\<close> across an
  arena of side \<open>2^600\<close>, straight at the opponent, ends in the OverflowError of the
  distance computation.
\<close>

theorem shoot_without_ammo_counterexample:
  "execute_action ''shoot'' ((Robot 60 100 0)\<lparr>ammo := 0, last_action := Some ''do_nothing''\<rparr>)
       (Robot 100 100 0) 200
   \<noteq> Inr ((Robot 60 100 0)\<lparr>ammo := 0, last_action := Some ''do_nothing''\<rparr>, Robot 100 100 0)
   \<and> execute_action ''shoot'' (Robot 0 0 0) (Robot (2 ^ 600) 0 0) (2 ^ 600) = Inl OverflowError"
proof -
  have a: "execute_action ''shoot'' ((Robot 60 100 0)\<lparr>ammo := 0, last_action := Some ''do_nothing''\<rparr>)
       (Robot 100 100 0) 200
   \<noteq> Inr ((Robot 60 100 0)\<lparr>ammo := 0, last_action := Some ''do_nothing''\<rparr>, Robot 100 100 0)"
    by (simp add: execute_action_shoot Robot_def Robot_init_def)
  have "((2::real) ^ 600)\<^sup>2 = 2 ^ 1200" by (simp add: power_mult [symmetric])
  moreover have "(2::real) ^ 1024 \<le> 2 ^ 1200" by (rule power_increasing) simp_all
  ultimately have f: "float_limit \<le> ((2::real) ^ 600)\<^sup>2" using float_limit_le by linarith
  have b: "execute_action ''shoot'' (Robot 0 0 0) (Robot (2 ^ 600) 0 0) (2 ^ 600) = Inl OverflowError"
    using f by (simp add: execute_action_shoot too_far_def Robot_def Robot_init_def
        math_atan2_def py_mod_def)
  from a b show ?thesis by (intro conjI)
qed

section \<open>The ammo invariant\<close>

text \<open>
  C5. A new robot has 50 ammo. When \<open>execute_action\<close> returns, it has left the
  opponent's ammo alone and kept the actor's ammo within \<open>[0, 50]\<close>, for every action,
  opponent and arena size; \<open>shoot\<close> takes 1 only when the ammo is positive and \<open>reload\<close>
  sets the ammo to \<open>min(50, ammo + 10)\<close>. It returns in every case but one: a \<open>shoot\<close>
  with ammo at an opponent too far away for the distance computation, which raises
  OverflowError. Hence both robots' ammo is within \<open>[0, 50]\<close> after a battle of any
  length between any two programs.
\<close>

theorem ammo_invariant:
  "ammo (Robot x y f) = 50
   \<and> ((\<exists>r' o'. execute_action a r opp s = Inr (r', o')
          \<and> (0 \<le> ammo r \<and> ammo r \<le> 50 \<longrightarrow> 0 \<le> ammo r' \<and> ammo r' \<le> 50)
          \<and> (a = ''shoot'' \<longrightarrow> ammo r' = (if ammo r > 0 then ammo r - 1 else ammo r))
          \<and> (a = ''reload'' \<longrightarrow> ammo r' = min 50 (ammo r + 10))
          \<and> ammo o' = ammo opp)
        \<or> (a = ''shoot'' \<and> 0 < ammo r \<and> too_far r opp
            \<and> execute_action a r opp s = Inl OverflowError))
   \<and> (battle n func1 func2 s r1 r2 = Inr (q1, q2, k)
        \<and> 0 \<le> ammo r1 \<and> ammo r1 \<le> 50 \<and> 0 \<le> ammo r2 \<and> ammo r2 \<le> 50
        \<longrightarrow> 0 \<le> ammo q1 \<and> ammo q1 \<le> 50 \<and> 0 \<le> ammo q2 \<and> ammo q2 \<le> 50)"
proof -
  have 1: "ammo (Robot x y f) = 50" by (simp add: Robot_def Robot_init_def)
  have 2: "(\<exists>r' o'. execute_action a r opp s = Inr (r', o')
          \<and> (0 \<le> ammo r \<and> ammo r \<le> 50 \<longrightarrow> 0 \<le> ammo r' \<and> ammo r' \<le> 50)
          \<and> (a = ''shoot'' \<longrightarrow> ammo r' = (if ammo r > 0 then ammo r - 1 else ammo r))
          \<and> (a = ''reload'' \<longrightarrow> ammo r' = min 50 (ammo r + 10))
          \<and> ammo o' = ammo opp)
        \<or> (a = ''shoot'' \<and> 0 < ammo r \<and> too_far r opp
            \<and> execute_action a r opp s = Inl OverflowError)"
  proof (cases "execute_action a r opp s")
    case (Inl e)
    with execute_action_raises [OF Inl] show ?thesis by simp
  next
    case (Inr res)
    obtain r' o' where res: "res = (r', o')" by (cases res)
    from execute_action_ammo [of a r opp s r' o'] Inr res show ?thesis by auto
  qed
  have 3: "battle n func1 func2 s r1 r2 = Inr (q1, q2, k)
        \<and> 0 \<le> ammo r1 \<and> ammo r1 \<le> 50 \<and> 0 \<le> ammo r2 \<and> ammo r2 \<le> 50
        \<longrightarrow> 0 \<le> ammo q1 \<and> ammo q1 \<le> 50 \<and> 0 \<le> ammo q2 \<and> ammo q2 \<le> 50"
    using battle_ammo [of n func1 func2 s r1 r2 q1 q2 k] by blast
  from 1 2 3 show ?thesis by (intro conjI)
qed

theorem ammo_invariant_witness:
  "ammo (Robot 50 50 0) = 50
   \<and> (\<exists>r' o'. execute_action ''reload'' shooter_after idler_after 200 = Inr (r', o')
         \<and> 0 \<le> ammo shooter_after \<and> ammo shooter_after \<le> 50 \<and> ammo r' = 50
         \<and> ammo o' = ammo idler_after)
   \<and> battle 100 shooter idler 200 (Robot 50 50 0) (Robot 50 50 0) = Inr (shooter_after, idler_after, 5)
   \<and> 0 \<le> ammo shooter_after \<and> ammo shooter_after \<le> 50
   \<and> 0 \<le> ammo idler_after \<and> ammo idler_after \<le> 50"
proof -
  have a: "ammo shooter_after = 45" by (simp add: shooter_after_def)
  have r: "ammo (Robot 50 50 0) = 50" by (simp add: Robot_def Robot_init_def)
  show ?thesis
    using ammo_invariant [of 50 50 0 "''reload''" shooter_after idler_after 200 100 shooter idler
        "Robot 50 50 0" "Robot 50 50 0" shooter_after idler_after 5]
      battle_shooter_idler a r
    by auto
qed

section \<open>Totality of a match\<close>

text \<open>
  C8, as amended. The robots of a match are inside the arena: they are placed there,
  and neither the sensor update nor an action takes them out. For robots inside an
  arena whose side \<open>s\<close> has \<open>2 s\<^sup>2\<close> within the float range, as the side 200 of the code
  has, the sensor update and the execution of any action never raise; \<open>select_action\<close>
  returns one of the six actions for every finite output; so an iteration of the match
  loop returns when the two programs return finite numbers in it, and a battle returns
  when they do in every iteration it runs.
\<close>

theorem match_total_on_finite_outputs:
  "(in_arena s r \<and> in_arena s opp \<and> 2 * s\<^sup>2 < float_limit \<longrightarrow>
      (\<exists>u. update_sensors r opp s = Inr u \<and> in_arena s u)
      \<and> (\<exists>r' o'. execute_action a r opp s = Inr (r', o') \<and> in_arena s r' \<and> in_arena s o'))
   \<and> (\<exists>act. select_action (Fin v) = Inr act \<and> act \<in> set actions)
   \<and> (in_arena s r1 \<and> in_arena s r2 \<and> 2 * s\<^sup>2 < float_limit
        \<and> finite_outputs func1 func2 s r1 r2 \<longrightarrow>
        (\<exists>t1 t2. tick func1 func2 s r1 r2 = Inr (t1, t2) \<and> in_arena s t1 \<and> in_arena s t2))
   \<and> (in_arena s r1 \<and> in_arena s r2 \<and> 2 * s\<^sup>2 < float_limit
        \<and> finite_run n func1 func2 s r1 r2 \<longrightarrow>
        (\<exists>q1 q2 k. battle n func1 func2 s r1 r2 = Inr (q1, q2, k)))
   \<and> (50 \<le> s \<and> 0 \<le> g 0 \<and> g 0 \<le> 1 \<and> 0 \<le> g 1 \<and> g 1 \<le> 1 \<longrightarrow>
        in_arena s (fst (new_robot s g)))"
  using update_sensors_in_arena [of s r opp] execute_action_in_arena [of s r opp a]
    select_action_member [of v] tick_returns [of s r1 r2 func1 func2]
    battle_returns [of s r1 r2 n func1 func2] new_robot_in_arena [of s g]
  by blast

theorem match_total_on_finite_outputs_witness:
  "in_arena 200 (Robot 50 50 0) \<and> 2 * 200\<^sup>2 < float_limit
   \<and> finite_outputs shooter idler 200 (Robot 50 50 0) (Robot 50 50 0)
   \<and> finite_run 100 shooter idler 200 (Robot 50 50 0) (Robot 50 50 0)
   \<and> (50::real) \<le> 200
   \<and> in_arena 200 (fst (new_robot 200 (draws_from [0, 0, 0])))
   \<and> (\<exists>u. update_sensors (Robot 50 50 0) (Robot 50 50 0) 200 = Inr u)
   \<and> (\<exists>t1 t2. tick shooter idler 200 (Robot 50 50 0) (Robot 50 50 0) = Inr (t1, t2))
   \<and> (\<exists>q1 q2 k. battle 100 shooter idler 200 (Robot 50 50 0) (Robot 50 50 0) = Inr (q1, q2, k))"
proof -
  have i: "in_arena 200 (Robot 50 50 0)" by (simp add: in_arena_def Robot_def Robot_init_def)
  have b: "2 * 200\<^sup>2 < float_limit" using small_below_limit [of "2 * 200\<^sup>2"] by simp
  have d: "0 \<le> draws_from [0, 0, 0] 0 \<and> draws_from [0, 0, 0] 0 \<le> 1
      \<and> 0 \<le> draws_from [0, 0, 0] 1 \<and> draws_from [0, 0, 0] 1 \<le> 1"
    by (simp add: draws_from_def)
  from match_total_on_finite_outputs [of 200 "Robot 50 50 0" "Robot 50 50 0" "''shoot''" 3
      "Robot 50 50 0" "Robot 50 50 0" shooter idler 100 "draws_from [0, 0, 0]"]
    i b d finite_outputs_shooter_idler [of 200 "Robot 50 50 0" "Robot 50 50 0"]
    finite_run_shooter_idler [of 100 200 "Robot 50 50 0" "Robot 50 50 0"]
  show ?thesis by auto
qed

text \<open>
  C8 as stated fails. On the outputs that are not finite \<open>select_action\<close> raises
  OverflowError for an infinity and ValueError for a NaN, and the exception ends the
  battle. And in an arena of side \<open>2^600\<close> the sensor update of a robot in one corner
  facing a robot on the far side raises OverflowError.
\<close>

theorem nonfinite_output_counterexample:
  "select_action PInf = Inl OverflowError \<and> select_action NInf = Inl OverflowError
   \<and> select_action NaN = Inl ValueError
   \<and> battle 100 overflowing idler 200 (Robot 50 50 0) (Robot 50 50 0) = Inl OverflowError
   \<and> in_arena (2 ^ 600) (Robot 0 0 0) \<and> in_arena (2 ^ 600) (Robot (2 ^ 600) 0 0)
   \<and> update_sensors (Robot 0 0 0) (Robot (2 ^ 600) 0 0) (2 ^ 600) = Inl OverflowError"
proof -
  have s: "select_action PInf = Inl OverflowError" "select_action NInf = Inl OverflowError"
    "select_action NaN = Inl ValueError"
    by (simp_all add: select_action_def bindE_def)
  have t: "tick overflowing idler 200 (Robot 50 50 0) (Robot 50 50 0) = Inl OverflowError"
    by (simp add: tick_def update_sensors_eq too_far_def small_below_limit Robot_def
        Robot_init_def bindE_Inr bindE_Inl run_program_def overflowing_def idler_def s)
  have b: "battle 100 overflowing idler 200 (Robot 50 50 0) (Robot 50 50 0) = Inl OverflowError"
    by (simp add: eval_nat_numeral t bindE_Inl)
  have i: "in_arena (2 ^ 600) (Robot 0 0 0)" "in_arena (2 ^ 600) (Robot (2 ^ 600) 0 0)"
    by (simp_all add: in_arena_def Robot_def Robot_init_def)
  have "((2::real) ^ 600)\<^sup>2 = 2 ^ 1200" by (simp add: power_mult [symmetric])
  moreover have "(2::real) ^ 1024 \<le> 2 ^ 1200" by (rule power_increasing) simp_all
  ultimately have "float_limit \<le> ((2::real) ^ 600)\<^sup>2" using float_limit_le by linarith
  then have u: "update_sensors (Robot 0 0 0) (Robot (2 ^ 600) 0 0) (2 ^ 600) = Inl OverflowError"
    by (simp add: update_sensors_eq too_far_def Robot_def Robot_init_def)
  from s b i u show ?thesis by (intro conjI)
qed

section \<open>The frame of \<open>execute_action\<close>\<close>

text \<open>
  C10. For \<open>do_nothing\<close>, for \<open>shoot\<close> with no ammo and for every string that is not one
  of the six actions, \<open>execute_action\<close> sets \<open>last_action\<close> to the string and changes no
  other field of the robot and no field of the opponent.
\<close>

theorem execute_action_frame:
  "a = ''do_nothing'' \<or> (a = ''shoot'' \<and> ammo r = 0) \<or> a \<notin> set actions
   \<Longrightarrow> execute_action a r opp s = Inr (r\<lparr>last_action := Some a\<rparr>, opp)"
  by (auto simp add: execute_action_def Let_def actions_def)

theorem execute_action_frame_witness:
  "execute_action ''do_nothing'' (Robot 60 100 0) (Robot 100 100 0) 200
     = Inr ((Robot 60 100 0)\<lparr>last_action := Some ''do_nothing''\<rparr>, Robot 100 100 0)
   \<and> ammo ((Robot 60 100 0)\<lparr>ammo := 0\<rparr>) = 0
   \<and> execute_action ''shoot'' ((Robot 60 100 0)\<lparr>ammo := 0\<rparr>) (Robot 100 100 0) 200
     = Inr ((Robot 60 100 0)\<lparr>ammo := 0, last_action := Some ''shoot''\<rparr>, Robot 100 100 0)
   \<and> ''jump'' \<notin> set actions
   \<and> execute_action ''jump'' (Robot 60 100 0) (Robot 100 100 0) 200
     = Inr ((Robot 60 100 0)\<lparr>last_action := Some ''jump''\<rparr>, Robot 100 100 0)"
proof -
  have 1: "''jump'' \<notin> set actions" by (simp add: actions_def)
  have 2: "ammo ((Robot 60 100 0)\<lparr>ammo := 0\<rparr>) = 0" by simp
  have a: "execute_action ''do_nothing'' (Robot 60 100 0) (Robot 100 100 0) 200
     = Inr ((Robot 60 100 0)\<lparr>last_action := Some ''do_nothing''\<rparr>, Robot 100 100 0)"
    by (rule execute_action_frame) simp
  have b: "execute_action ''shoot'' ((Robot 60 100 0)\<lparr>ammo := 0\<rparr>) (Robot 100 100 0) 200
     = Inr ((Robot 60 100 0)\<lparr>ammo := 0, last_action := Some ''shoot''\<rparr>, Robot 100 100 0)"
    using execute_action_frame [of "''shoot''" "(Robot 60 100 0)\<lparr>ammo := 0\<rparr>" "Robot 100 100 0" 200]
    by simp
  have c: "execute_action ''jump'' (Robot 60 100 0) (Robot 100 100 0) 200
     = Inr ((Robot 60 100 0)\<lparr>last_action := Some ''jump''\<rparr>, Robot 100 100 0)"
    using 1 by (intro execute_action_frame) simp
  from a b c 1 2 show ?thesis by (intro conjI)
qed

section \<open>Subtree crossover\<close>

text \<open>
  C9. For every pair of parent trees and every choice of a node in each, subtree
  crossover returns two offspring whose sizes add up to the sum of the parents' sizes.
\<close>

theorem crossover_conserves_size:
  "i < tree_size parent1 \<Longrightarrow> j < tree_size parent2 \<Longrightarrow>
   \<exists>offspring1 offspring2. crossover parent1 parent2 i j = Some (offspring1, offspring2)
     \<and> tree_size offspring1 + tree_size offspring2 = tree_size parent1 + tree_size parent2"
proof -
  assume i: "i < tree_size parent1" and j: "j < tree_size parent2"
  from subtree_at_defined(1) [OF i] obtain s1 where s1: "subtree_at parent1 i = Some s1" by blast
  from subtree_at_defined(1) [OF j] obtain s2 where s2: "subtree_at parent2 j = Some s2" by blast
  from replace_at_size(1) [OF s1, of s2] replace_at_size(1) [OF s2, of s1]
  have "tree_size (replace_at parent1 i s2) + tree_size (replace_at parent2 j s1)
      = tree_size parent1 + tree_size parent2" by simp
  then show ?thesis by (simp add: crossover_def s1 s2)
qed

theorem crossover_conserves_size_witness:
  "(2::nat) < tree_size sample1 \<and> (1::nat) < tree_size sample2
   \<and> crossover sample1 sample2 2 1 =
       Some (Function ''add'' [Terminal (Sensor ''health''), Terminal (Sensor ''ammo'')],
             Function ''mul'' [Function ''neg'' [Terminal (Constant 3)], Terminal (Constant 5)])
   \<and> tree_size (Function ''add'' [Terminal (Sensor ''health''), Terminal (Sensor ''ammo'')])
      + tree_size (Function ''mul'' [Function ''neg'' [Terminal (Constant 3)], Terminal (Constant 5)])
      = tree_size sample1 + tree_size sample2"
proof -
  have 1: "(2::nat) < tree_size sample1" by (simp add: sample1_def)
  have 2: "(1::nat) < tree_size sample2" by (simp add: sample2_def)
  have 3: "crossover sample1 sample2 2 1 =
       Some (Function ''add'' [Terminal (Sensor ''health''), Terminal (Sensor ''ammo'')],
             Function ''mul'' [Function ''neg'' [Terminal (Constant 3)], Terminal (Constant 5)])"
    by (simp add: crossover_def sample1_def sample2_def eval_nat_numeral)
  from crossover_conserves_size [OF 1 2] 1 2 3 show ?thesis by simp
qed

section \<open>The scores of a round robin\<close>

text \<open>
  C1, as amended. When \<open>evaluate_individuals\<close> returns, both pools keep their lengths
  and their trees, every individual of the first pool has played every individual of the
  second exactly once, and each individual's score is the score it brought into the
  round plus its number of wins in the round. The score brought in is 0 for an
  individual whose fitness was not valid, and the old score otherwise. The crossover and
  mutation loops leave an individual as it was, old score included, or return it with
  its fitness not valid.
\<close>

theorem round_robin_scores:
  "(evaluate_individuals pop1 pop2 cmp s max_steps g = Inr (new1, new2, rows, g') \<longrightarrow>
      length new1 = length pop1 \<and> length new2 = length pop2 \<and> length rows = length pop1
      \<and> (\<forall>row \<in> set rows. length row = length pop2)
      \<and> (\<forall>i < length pop1.
            new1 ! i = (pop1 ! i)\<lparr>fitness := Some (carried (pop1 ! i) + wins1 rows i)\<rparr>)
      \<and> (\<forall>j < length pop2.
            new2 ! j = (pop2 ! j)\<lparr>fitness := Some (carried (pop2 ! j) + wins2 rows j)\<rparr>))
   \<and> carried \<lparr>tree = t, fitness = None\<rparr> = 0
   \<and> carried \<lparr>tree = t, fitness = Some v\<rparr> = v
   \<and> list_all2 (\<lambda>old new. new = old \<or> fitness new = None) pop (fst (crossover_pass tb pop h))
   \<and> list_all2 (\<lambda>old new. new = old \<or> fitness new = None) pop (fst (mutation_pass tb pop h))"
proof -
  have 1: "evaluate_individuals pop1 pop2 cmp s max_steps g = Inr (new1, new2, rows, g') \<longrightarrow>
      length new1 = length pop1 \<and> length new2 = length pop2 \<and> length rows = length pop1
      \<and> (\<forall>row \<in> set rows. length row = length pop2)
      \<and> (\<forall>i < length pop1.
            new1 ! i = (pop1 ! i)\<lparr>fitness := Some (carried (pop1 ! i) + wins1 rows i)\<rparr>)
      \<and> (\<forall>j < length pop2.
            new2 ! j = (pop2 ! j)\<lparr>fitness := Some (carried (pop2 ! j) + wins2 rows j)\<rparr>)"
    using evaluate_individuals_tally [of pop1 pop2 cmp s max_steps g new1 new2 rows g']
    by (simp add: credit_def)
  have 2: "carried \<lparr>tree = t, fitness = None\<rparr> = 0" "carried \<lparr>tree = t, fitness = Some v\<rparr> = v"
    by (simp_all add: carried_def)
  from 1 2 crossover_pass_marks [of pop tb h] mutation_pass_marks [of pop tb h]
  show ?thesis by (intro conjI)
qed

theorem round_robin_scores_witness:
  "evaluate_individuals [\<lparr>tree = 3, fitness = Some 1\<rparr>] [\<lparr>tree = 5, fitness = None\<rparr>]
       compile_constant 200 100 (draws_from [0, 0, 0, 0, 0, 0])
     = Inr ([\<lparr>tree = 3, fitness = Some 2\<rparr>], [\<lparr>tree = 5, fitness = Some 0\<rparr>],
            [[(shooter_after, idler_after, 5)]], draws_from [])
   \<and> [\<lparr>tree = 3::real, fitness = Some 2\<rparr>] ! 0
       = ([\<lparr>tree = 3, fitness = Some 1\<rparr>] ! 0)\<lparr>fitness :=
            Some (carried ([\<lparr>tree = 3::real, fitness = Some 1\<rparr>] ! 0)
                  + wins1 [[(shooter_after, idler_after, 5)]] 0)\<rparr>
   \<and> [\<lparr>tree = 5::real, fitness = Some 0\<rparr>] ! 0
       = ([\<lparr>tree = 5, fitness = None\<rparr>] ! 0)\<lparr>fitness :=
            Some (carried ([\<lparr>tree = 5::real, fitness = None\<rparr>] ! 0)
                  + wins2 [[(shooter_after, idler_after, 5)]] 0)\<rparr>
   \<and> carried \<lparr>tree = 3::real, fitness = Some 1\<rparr> = 1
   \<and> wins1 [[(shooter_after, idler_after, 5)]] 0 = 1
   \<and> carried \<lparr>tree = 5::real, fitness = None\<rparr> = 0
   \<and> wins2 [[(shooter_after, idler_after, 5)]] 0 = 0"
proof -
  have e: "evaluate_individuals [\<lparr>tree = 3, fitness = Some 1\<rparr>] [\<lparr>tree = 5, fitness = None\<rparr>]
       compile_constant 200 100 (draws_from [0, 0, 0, 0, 0, 0])
     = Inr ([\<lparr>tree = 3, fitness = Some 2\<rparr>], [\<lparr>tree = 5, fitness = Some 0\<rparr>],
            [[(shooter_after, idler_after, 5)]], draws_from [])"
    by (simp add: evaluate_shooter_idler)
  have w: "wins1 [[(shooter_after, idler_after, 5)]] 0 = 1"
    "wins2 [[(shooter_after, idler_after, 5)]] 0 = 0"
    by (simp_all add: wins1_def wins2_def first_won_def second_won_def shooter_after_def
        idler_after_def)
  have c: "carried \<lparr>tree = 3::real, fitness = Some 1\<rparr> = 1"
    "carried \<lparr>tree = 5::real, fitness = None\<rparr> = 0"
    by (simp_all add: carried_def)
  from round_robin_scores [of "[\<lparr>tree = 3, fitness = Some 1\<rparr>]" "[\<lparr>tree = 5, fitness = None\<rparr>]"
      compile_constant 200 100 "draws_from [0, 0, 0, 0, 0, 0]"
      "[\<lparr>tree = 3, fitness = Some 2\<rparr>]" "[\<lparr>tree = 5, fitness = Some 0\<rparr>]"
      "[[(shooter_after, idler_after, 5)]]" "draws_from []" "3::real" 1 "[]" constant_toolbox
      "draws_from []"] e
  have a: "[\<lparr>tree = 3::real, fitness = Some 2\<rparr>] ! 0
       = ([\<lparr>tree = 3, fitness = Some 1\<rparr>] ! 0)\<lparr>fitness :=
            Some (carried ([\<lparr>tree = 3::real, fitness = Some 1\<rparr>] ! 0)
                  + wins1 [[(shooter_after, idler_after, 5)]] 0)\<rparr>"
    and b: "[\<lparr>tree = 5::real, fitness = Some 0\<rparr>] ! 0
       = ([\<lparr>tree = 5, fitness = None\<rparr>] ! 0)\<lparr>fitness :=
            Some (carried ([\<lparr>tree = 5::real, fitness = None\<rparr>] ! 0)
                  + wins2 [[(shooter_after, idler_after, 5)]] 0)\<rparr>"
    by auto
  from e a b c w show ?thesis by (intro conjI)
qed

text \<open>
  C1 as stated fails. A population of one shooter with score 1 meets a population of one
  idler; with both mutation draws at 0.5 the offspring are unchanged clones, the shooter
  wins the single match of the generation, and its score is 2. A whole run of
  \<open>coevolution\<close> with one individual a side and one generation ends with that score.
\<close>

theorem carried_score_counterexample:
  "generation constant_toolbox [\<lparr>tree = 3, fitness = Some 1\<rparr>] [\<lparr>tree = 5, fitness = Some 0\<rparr>]
       (draws_from [1 / 2, 1 / 2, 0, 0, 0, 0, 0, 0])
     = Inr ([\<lparr>tree = 3, fitness = Some 2\<rparr>], [\<lparr>tree = 5, fitness = Some 0\<rparr>], (2, 2, 0, 0),
            [[(shooter_after, idler_after, 5)]], draws_from [])
   \<and> wins1 [[(shooter_after, idler_after, 5)]] 0 = 1
   \<and> coevolution constant_toolbox 1 1
        (draws_from [0, 1 / 2, 0, 0, 0, 0, 0, 0, 1 / 2, 1 / 2, 0, 0, 0, 0, 0, 0])
     = Inr ([\<lparr>tree = 3, fitness = Some 2\<rparr>], [\<lparr>tree = 5, fitness = Some 0\<rparr>], [2], [2], [0], [0])"
proof -
  have w: "wins1 [[(shooter_after, idler_after, 5)]] 0 = 1"
    by (simp add: wins1_def first_won_def shooter_after_def idler_after_def)
  from generation_carries_score [of "[]"] w coevolution_full_run show ?thesis by simp
qed

section \<open>Configuration\<close>

text \<open>
  C7, as amended. \<open>coevolution\<close> checks neither the population size nor the number of
  generations. With a number of generations of 0 or less it builds and evaluates the two
  populations and returns them with empty statistics; if the population size is 0 or
  less as well, the populations are empty and the result is six empty lists. With a
  population size of 0 or less and at least one generation, and a selection that returns
  no individual from an empty population, the first generation runs on empty pools and
  the average of its empty fitness list raises ZeroDivisionError.
\<close>

theorem no_configuration_check:
  "(generations \<le> 0 \<longrightarrow>
      coevolution tb pop_size generations g =
        bindE (evaluate_individuals (fst (population tb pop_size g))
                 (fst (population tb pop_size (snd (population tb pop_size g))))
                 (compile tb) 200 100
                 (snd (population tb pop_size (snd (population tb pop_size g)))))
          (\<lambda>(pop1, pop2, rows, g3). Inr (pop1, pop2, [], [], [], [])))
   \<and> (pop_size \<le> 0 \<and> generations \<le> 0 \<longrightarrow>
        coevolution tb pop_size generations g = Inr ([], [], [], [], [], []))
   \<and> (pop_size \<le> 0 \<and> 0 < generations \<and> (\<forall>h. fst (select tb [] 0 h) = []) \<longrightarrow>
        coevolution tb pop_size generations g = Inl ZeroDivisionError)"
  using coevolution_generations_le_0 [of generations tb pop_size g]
    coevolution_empty [of pop_size generations tb g]
    coevolution_empty_population [of pop_size generations tb g]
  by blast

theorem no_configuration_check_witness:
  "(- 1 :: int) \<le> 0 \<and> (0 :: int) \<le> 0 \<and> (0 :: int) < 1
   \<and> (\<forall>h. fst (select constant_toolbox [] 0 h) = [])
   \<and> coevolution constant_toolbox 0 (- 1) (draws_from []) = Inr ([], [], [], [], [], [])
   \<and> coevolution constant_toolbox 0 1 (draws_from []) = Inl ZeroDivisionError"
proof -
  have s: "\<forall>h. fst (select constant_toolbox [] 0 h) = []" by (simp add: constant_toolbox_def)
  from no_configuration_check [of "- 1" constant_toolbox 0 "draws_from []"]
  have a: "coevolution constant_toolbox 0 (- 1) (draws_from []) = Inr ([], [], [], [], [], [])"
    by force
  from no_configuration_check [of 1 constant_toolbox 0 "draws_from []"] s
  have b: "coevolution constant_toolbox 0 1 (draws_from []) = Inl ZeroDivisionError"
    by force
  from a b s show ?thesis by simp
qed

text \<open>
  C7 as stated fails: a negative number of generations, a population size of 0 and a
  negative population size all return normally.
\<close>

theorem invalid_configuration_counterexample:
  "coevolution constant_toolbox 1 (- 1) (draws_from [0, 1 / 2, 0, 0, 0, 0, 0, 0])
     = Inr ([\<lparr>tree = 3, fitness = Some 1\<rparr>], [\<lparr>tree = 5, fitness = Some 0\<rparr>], [], [], [], [])
   \<and> coevolution constant_toolbox 0 0 (draws_from []) = Inr ([], [], [], [], [], [])
   \<and> coevolution constant_toolbox (- 2) (- 1) (draws_from []) = Inr ([], [], [], [], [], [])"
  using coevolution_no_generations coevolution_empty [of 0 0 constant_toolbox "draws_from []"]
    coevolution_empty [of "- 2" "- 1" constant_toolbox "draws_from []"]
  by simp

end
